theory Spec2Isabelle
  imports Complex_Main "HOL-Library.AList"
begin

section \<open>Strings of the source language\<close>

text \<open>
  A JavaScript string is a sequence of UTF-16 code units. Every character the hook
  looks at lies in the Basic Multilingual Plane, so a code unit is modelled by its
  number and a string by a list of numbers. \<open>ustr\<close> writes an ASCII literal.
\<close>

type_synonym jsstring = "nat list"

definition ustr :: "string \<Rightarrow> jsstring" where
  "ustr s = map of_char s"

text \<open>
  WhiteSpace and LineTerminator of ECMAScript: the characters that \<open>String.prototype.trim\<close>
  removes and that \<open>\s\<close> matches.
\<close>

definition is_ws :: "nat \<Rightarrow> bool" where
  "is_ws c \<longleftrightarrow>
     c = 0x09 \<or> c = 0x0A \<or> c = 0x0B \<or> c = 0x0C \<or> c = 0x0D \<or> c = 0x20 \<or> c = 0xA0 \<or>
     c = 0x1680 \<or> (0x2000 \<le> c \<and> c \<le> 0x200A) \<or> c = 0x2028 \<or> c = 0x2029 \<or>
     c = 0x202F \<or> c = 0x205F \<or> c = 0x3000 \<or> c = 0xFEFF"

text \<open>LineTerminator: what \<open>.\<close> of a regular expression does not match.\<close>

definition is_line_terminator :: "nat \<Rightarrow> bool" where
  "is_line_terminator c \<longleftrightarrow> c = 0x0A \<or> c = 0x0D \<or> c = 0x2028 \<or> c = 0x2029"

text \<open>\<open>\d\<close>: the ten ASCII digits.\<close>

definition is_digit :: "nat \<Rightarrow> bool" where
  "is_digit c \<longleftrightarrow> 0x30 \<le> c \<and> c \<le> 0x39"

text \<open>\<open>String.prototype.trim\<close>.\<close>

definition trim :: "jsstring \<Rightarrow> jsstring" where
  "trim s = rev (dropWhile is_ws (rev (dropWhile is_ws s)))"

text \<open>\<open>s.replace(/\s+/g, "")\<close>: every whitespace character is removed.\<close>

definition remove_ws :: "jsstring \<Rightarrow> jsstring" where
  "remove_ws s = filter (\<lambda>c. \<not> is_ws c) s"

text \<open>
  \<open>s.replace(",", ".")\<close> and its like: a string pattern replaces the first occurrence only.
\<close>

fun replace_first :: "nat \<Rightarrow> nat \<Rightarrow> jsstring \<Rightarrow> jsstring" where
  "replace_first a b [] = []"
| "replace_first a b (c # cs) = (if c = a then b # cs else c # replace_first a b cs)"

section \<open>Numbers of the source language\<close>

text \<open>
  A JavaScript Number is an IEEE 754 binary64 value. A finite one is modelled by the
  rational number it denotes, so \<open>Num x\<close> is only ever built from an \<open>x\<close> that binary64
  holds; the two zeros are one value, as they are for \<open>===\<close>, \<open><=\<close>, \<open>Math.abs\<close> and
  \<open>isNaN\<close>, the only operations the hook applies to a number.
\<close>

datatype jsnum = NaN | PosInf | NegInf | Num rat

definition isNaN :: "jsnum \<Rightarrow> bool" where
  "isNaN v \<longleftrightarrow> v = NaN"

text \<open>Unary minus.\<close>

fun js_neg :: "jsnum \<Rightarrow> jsnum" where
  "js_neg NaN = NaN"
| "js_neg PosInf = NegInf"
| "js_neg NegInf = PosInf"
| "js_neg (Num x) = Num (- x)"

text \<open>\<open>Math.abs\<close>.\<close>

fun js_abs :: "jsnum \<Rightarrow> jsnum" where
  "js_abs NaN = NaN"
| "js_abs PosInf = PosInf"
| "js_abs NegInf = PosInf"
| "js_abs (Num x) = Num \<bar>x\<bar>"

text \<open>\<open>a <= b\<close>: false as soon as one side is NaN.\<close>

fun js_le :: "jsnum \<Rightarrow> jsnum \<Rightarrow> bool" where
  "js_le NaN b = False"
| "js_le a NaN = False"
| "js_le NegInf b = True"
| "js_le a PosInf = True"
| "js_le PosInf b = False"
| "js_le a NegInf = False"
| "js_le (Num x) (Num y) = (x \<le> y)"

subsection \<open>Rounding a decimal to binary64\<close>

text \<open>
  A numeric string denotes an exact decimal, a fraction \<open>p / q\<close> of natural numbers; the
  Number it becomes is the binary64 value nearest to it, ties going to the even
  significand, and infinity from \<open>2^1024 - 2^970\<close> on.
\<close>

definition pow2 :: "int \<Rightarrow> rat" where
  "pow2 e = (if 0 \<le> e then 2 ^ nat e else 1 / 2 ^ nat (- e))"

text \<open>The number of binary digits of a natural number.\<close>

fun bit_length :: "nat \<Rightarrow> nat" where
  "bit_length n = (if n = 0 then 0 else Suc (bit_length (n div 2)))"

declare bit_length.simps [simp del]

text \<open>For positive \<open>p\<close> and \<open>q\<close>, the exponent \<open>e\<close> with \<open>2^e \<le> p / q < 2^(e+1)\<close>.\<close>

definition binade :: "nat \<Rightarrow> nat \<Rightarrow> int" where
  "binade p q =
     (let d = int (bit_length p) - int (bit_length q)
      in if (if 0 \<le> d then q * 2 ^ nat d \<le> p else q \<le> p * 2 ^ nat (- d)) then d else d - 1)"

text \<open>
  \<open>to_double p q\<close> is the Number nearest to \<open>p / q\<close>, for \<open>q > 0\<close>: the quotient is
  scaled to a significand of 53 bits (fewer below \<open>2^-1022\<close>, where the exponent stays
  \<open>-1022\<close>), which is rounded half to even.
\<close>

definition to_double :: "nat \<Rightarrow> nat \<Rightarrow> jsnum" where
  "to_double p q =
     (if p = 0 then Num 0
      else
        let e = max (binade p q) (- 1022);
            k = 52 - e;
            num = (if 0 \<le> k then p * 2 ^ nat k else p);
            den = (if 0 \<le> k then q else q * 2 ^ nat (- k));
            f = num div den;
            r = num mod den;
            m = (if 2 * r < den then f
                 else if den < 2 * r then f + 1
                 else if even f then f else f + 1)
        in if 1024 \<le> e \<or> (e = 1023 \<and> m = 2 ^ 53) then PosInf
           else Num (rat_of_nat m * pow2 (e - 52)))"

subsection \<open>parseFloat\<close>

text \<open>
  \<open>parseFloat\<close> of ECMAScript: leading whitespace is dropped, then the longest prefix
  that is a StrDecimalLiteral is read (a sign, then \<open>Infinity\<close> or digits with an
  optional fraction and an optional exponent); without such a prefix the result is NaN.
  Whatever follows the prefix is ignored.
\<close>

definition digits_value :: "jsstring \<Rightarrow> nat" where
  "digits_value ds = foldl (\<lambda>a c. 10 * a + (c - 0x30)) 0 ds"

text \<open>The ExponentPart at the head of a string, when there is a complete one.\<close>

definition exponent_part :: "jsstring \<Rightarrow> int" where
  "exponent_part s =
     (case s of
        [] \<Rightarrow> 0
      | c # r \<Rightarrow>
          if c = 0x65 \<or> c = 0x45 then
            (case r of
               [] \<Rightarrow> 0
             | d # r' \<Rightarrow>
                 if d = 0x2D then
                   (if takeWhile is_digit r' = [] then 0
                    else - int (digits_value (takeWhile is_digit r')))
                 else if d = 0x2B then int (digits_value (takeWhile is_digit r'))
                 else int (digits_value (takeWhile is_digit r)))
          else 0)"

definition unsigned_literal :: "jsstring \<Rightarrow> jsnum" where
  "unsigned_literal s =
     (if take 8 s = ustr ''Infinity'' then PosInf
      else
        let ip = takeWhile is_digit s;
            r1 = dropWhile is_digit s;
            has_dot = (r1 \<noteq> [] \<and> hd r1 = 0x2E);
            fp = (if has_dot then takeWhile is_digit (tl r1) else []);
            r2 = (if has_dot then dropWhile is_digit (tl r1) else r1)
        in if ip = [] \<and> fp = [] then NaN
           else
             let x = exponent_part r2 - int (length fp);
                 n = digits_value (ip @ fp)
             in if 0 \<le> x then to_double (n * 10 ^ nat x) 1
                else to_double n (10 ^ nat (- x)))"

definition parseFloat :: "jsstring \<Rightarrow> jsnum" where
  "parseFloat str =
     (let s = dropWhile is_ws str
      in case s of
           [] \<Rightarrow> NaN
         | c # r \<Rightarrow>
             if c = 0x2D then js_neg (unsigned_literal r)
             else if c = 0x2B then unsigned_literal r
             else unsigned_literal s)"

section \<open>Locale number parser\<close>

text \<open>\<open>/^[-\<dots>]$/\<close> with the hyphen, the en dash and the em dash in the class.\<close>

definition is_lone_dash :: "jsstring \<Rightarrow> bool" where
  "is_lone_dash s \<longleftrightarrow> (case s of [c] \<Rightarrow> c = 0x2D \<or> c = 0x2013 \<or> c = 0x2014 | _ \<Rightarrow> False)"

text \<open>
  \<open>s.replace(/r\$\s*/gi, "")\<close>: scanning from the left, each \<open>r$\<close> or \<open>R$\<close> goes together
  with the whitespace after it; the scan resumes behind the match.
\<close>

function strip_currency :: "jsstring \<Rightarrow> jsstring" where
  "strip_currency [] = []"
| "strip_currency [a] = [a]"
| "strip_currency (a # b # rest) =
     (if (a = 0x72 \<or> a = 0x52) \<and> b = 0x24 then strip_currency (dropWhile is_ws rest)
      else a # strip_currency (b # rest))"
  by pat_completeness auto
termination
  by (relation "measure length") (auto intro: le_imp_less_Suc le_SucI length_dropWhile_le)

text \<open>\<open>/^\(.*\)$/\<close>: an opening and a closing parenthesis around text without line breaks.\<close>

definition paren_wrapped :: "jsstring \<Rightarrow> bool" where
  "paren_wrapped s \<longleftrightarrow>
     2 \<le> length s \<and> hd s = 0x28 \<and> last s = 0x29 \<and>
     list_all (\<lambda>c. \<not> is_line_terminator c) (tl (butlast s))"

text \<open>\<open>/-$/\<close>.\<close>

definition ends_with_minus :: "jsstring \<Rightarrow> bool" where
  "ends_with_minus s \<longleftrightarrow> s \<noteq> [] \<and> last s = 0x2D"

text \<open>What \<open>s.replace(/[^\d.,\-]/g, "")\<close> keeps.\<close>

definition numeric_char :: "nat \<Rightarrow> bool" where
  "numeric_char c \<longleftrightarrow> is_digit c \<or> c = 0x2E \<or> c = 0x2C \<or> c = 0x2D"

text \<open>
  Lines 53 to 58 of the hook: the text that \<open>parseFloat\<close> receives, and whether a
  negative marker was seen. The argument is the trimmed cell.
\<close>

definition number_text :: "jsstring \<Rightarrow> bool \<times> jsstring" where
  "number_text s0 =
     (let s1 = remove_ws (strip_currency s0);
          neg1 = paren_wrapped s1;
          s2 = (if neg1 then tl (butlast s1) else s1);
          neg2 = ends_with_minus s2;
          s3 = (if neg2 then butlast s2 else s2);
          s4 = filter numeric_char s3;
          s5 = (if 0x2C \<in> set s4 \<and> 0x2E \<in> set s4
                then replace_first 0x2C 0x2E (filter (\<lambda>c. c \<noteq> 0x2E) s4)
                else if 0x2C \<in> set s4 then replace_first 0x2C 0x2E s4
                else s4)
      in (neg1 \<or> neg2, s5))"

text \<open>\<open>parsePtNumber\<close>; \<open>None\<close> is an absent cell (\<open>undefined\<close> or \<open>null\<close>).\<close>

definition parsePtNumber :: "jsstring option \<Rightarrow> jsnum" where
  "parsePtNumber raw =
     (case raw of
        None \<Rightarrow> Num 0
      | Some r \<Rightarrow>
          let s = trim r
          in if s = [] \<or> is_lone_dash s then Num 0
             else
               let (neg, t) = number_text s;
                   val = parseFloat t
               in if isNaN val then Num 0
                  else if neg then js_neg val else val)"

section \<open>Text normalizer\<close>

text \<open>
  \<open>normalize\<close> of the hook calls two functions of the JavaScript runtime whose tables
  are the Unicode Character Database: \<open>String.prototype.normalize("NFD")\<close> and
  \<open>String.prototype.toLowerCase\<close>. They are parameters of the model, so that what is
  proved for every \<open>platform\<close> holds for the real tables whatever they contain.
\<close>

record platform =
  nfd :: "jsstring \<Rightarrow> jsstring"
  toLowerCase :: "jsstring \<Rightarrow> jsstring"

text \<open>
  What replacing the class from \<open>U+0300\<close> to \<open>U+036F\<close> by the empty string removes: the
  combining diacritical marks.
\<close>

definition is_combining_mark :: "nat \<Rightarrow> bool" where
  "is_combining_mark c \<longleftrightarrow> 0x300 \<le> c \<and> c \<le> 0x36F"

text \<open>
  \<open>normalize\<close> of the hook, under the name \<open>normalize_str\<close> since HOL has a \<open>normalize\<close>
  of its own. Every call of the hook passes a string, so the \<open>s ?? ""\<close> of its first line
  never sees an absent value and is left out.
\<close>

definition normalize_str :: "platform \<Rightarrow> jsstring \<Rightarrow> jsstring" where
  "normalize_str P s =
     trim (toLowerCase P (filter (\<lambda>c. \<not> is_combining_mark c) (nfd P s)))"

subsection \<open>The two runtime functions on Latin-1 text\<close>

text \<open>
  For strings of code units up to \<open>U+00FF\<close> the Unicode tables are small enough to write
  down: the canonical decompositions of the Latin-1 Supplement (no character below
  \<open>U+00C0\<close> has one) and the simple lower-case mappings of \<open>A\<close> to \<open>Z\<close> and of \<open>U+00C0\<close>
  to \<open>U+00DE\<close>. \<open>latin1_platform\<close> is the runtime on such strings; it is used where a
  concrete cell is evaluated, and leaves every other code unit as it is.
\<close>

definition latin1_decompositions :: "(nat \<times> jsstring) list" where
  "latin1_decompositions =
     [(0xC0, [0x41, 0x300]), (0xC1, [0x41, 0x301]), (0xC2, [0x41, 0x302]),
      (0xC3, [0x41, 0x303]), (0xC4, [0x41, 0x308]), (0xC5, [0x41, 0x30A]),
      (0xC7, [0x43, 0x327]),
      (0xC8, [0x45, 0x300]), (0xC9, [0x45, 0x301]), (0xCA, [0x45, 0x302]),
      (0xCB, [0x45, 0x308]),
      (0xCC, [0x49, 0x300]), (0xCD, [0x49, 0x301]), (0xCE, [0x49, 0x302]),
      (0xCF, [0x49, 0x308]),
      (0xD1, [0x4E, 0x303]),
      (0xD2, [0x4F, 0x300]), (0xD3, [0x4F, 0x301]), (0xD4, [0x4F, 0x302]),
      (0xD5, [0x4F, 0x303]), (0xD6, [0x4F, 0x308]),
      (0xD9, [0x55, 0x300]), (0xDA, [0x55, 0x301]), (0xDB, [0x55, 0x302]),
      (0xDC, [0x55, 0x308]), (0xDD, [0x59, 0x301]),
      (0xE0, [0x61, 0x300]), (0xE1, [0x61, 0x301]), (0xE2, [0x61, 0x302]),
      (0xE3, [0x61, 0x303]), (0xE4, [0x61, 0x308]), (0xE5, [0x61, 0x30A]),
      (0xE7, [0x63, 0x327]),
      (0xE8, [0x65, 0x300]), (0xE9, [0x65, 0x301]), (0xEA, [0x65, 0x302]),
      (0xEB, [0x65, 0x308]),
      (0xEC, [0x69, 0x300]), (0xED, [0x69, 0x301]), (0xEE, [0x69, 0x302]),
      (0xEF, [0x69, 0x308]),
      (0xF1, [0x6E, 0x303]),
      (0xF2, [0x6F, 0x300]), (0xF3, [0x6F, 0x301]), (0xF4, [0x6F, 0x302]),
      (0xF5, [0x6F, 0x303]), (0xF6, [0x6F, 0x308]),
      (0xF9, [0x75, 0x300]), (0xFA, [0x75, 0x301]), (0xFB, [0x75, 0x302]),
      (0xFC, [0x75, 0x308]), (0xFD, [0x79, 0x301]), (0xFF, [0x79, 0x308])]"

definition latin1_nfd :: "jsstring \<Rightarrow> jsstring" where
  "latin1_nfd s =
     concat (map (\<lambda>c. case map_of latin1_decompositions c of None \<Rightarrow> [c] | Some d \<Rightarrow> d) s)"

definition latin1_lower_char :: "nat \<Rightarrow> nat" where
  "latin1_lower_char c =
     (if (0x41 \<le> c \<and> c \<le> 0x5A) \<or> (0xC0 \<le> c \<and> c \<le> 0xDE \<and> c \<noteq> 0xD7) then c + 0x20 else c)"

definition latin1_platform :: platform where
  "latin1_platform = \<lparr> nfd = latin1_nfd, toLowerCase = map latin1_lower_char \<rparr>"

section \<open>Month classifier\<close>

text \<open>
  The patterns carry the flag \<open>i\<close> and not \<open>u\<close>: a pattern character and an input
  character match when their upper-case forms agree, and a character from \<open>U+0080\<close> on
  never folds into ASCII. The pattern characters are lower-case letters of ASCII and
  of Latin-1, whose only partner is the letter \<open>0x20\<close> below.
\<close>

definition ci_eq :: "nat \<Rightarrow> nat \<Rightarrow> bool" where
  "ci_eq p c \<longleftrightarrow>
     c = p \<or>
     (((0x61 \<le> p \<and> p \<le> 0x7A) \<or> (0xE0 \<le> p \<and> p \<le> 0xFE \<and> p \<noteq> 0xF7)) \<and> c + 0x20 = p)"

text \<open>Matching a literal at the head of the input; the result is the rest of the input.\<close>

fun ci_prefix :: "jsstring \<Rightarrow> jsstring \<Rightarrow> jsstring option" where
  "ci_prefix [] s = Some s"
| "ci_prefix (p # ps) [] = None"
| "ci_prefix (p # ps) (c # cs) = (if ci_eq p c then ci_prefix ps cs else None)"

text \<open>\<open>\d{2,4}\<close> up to the end of the input.\<close>

definition digits_2_4 :: "jsstring \<Rightarrow> bool" where
  "digits_2_4 t \<longleftrightarrow> 2 \<le> length t \<and> length t \<le> 4 \<and> list_all is_digit t"

text \<open>\<open>[\/\-\s]\<close>.\<close>

definition is_separator :: "nat \<Rightarrow> bool" where
  "is_separator c \<longleftrightarrow> c = 0x2F \<or> c = 0x2D \<or> is_ws c"

text \<open>\<open>(?:[\/\-\s]?\d{2,4})?$\<close>: nothing, or two to four digits behind at most one separator.\<close>

definition year_suffix :: "jsstring \<Rightarrow> bool" where
  "year_suffix t \<longleftrightarrow>
     t = [] \<or> digits_2_4 t \<or> (case t of [] \<Rightarrow> False | c # r \<Rightarrow> is_separator c \<and> digits_2_4 r)"

text \<open>\<open>/^(a|b|...)(?:[\/\-\s]?\d{2,4})?$/i\<close> for the alternatives \<open>alts\<close>.\<close>

definition month_re :: "jsstring list \<Rightarrow> jsstring \<Rightarrow> bool" where
  "month_re alts s \<longleftrightarrow>
     list_ex (\<lambda>alt. case ci_prefix alt s of None \<Rightarrow> False | Some t \<Rightarrow> year_suffix t) alts"

text \<open>\<open>/^total$/i\<close>.\<close>

definition total_re :: "jsstring \<Rightarrow> bool" where
  "total_re s \<longleftrightarrow> ci_prefix (ustr ''total'') s = Some []"

text \<open>
  The alternatives and the key of the twelve month patterns of \<open>MONTH_ALIASES\<close>, in the
  order of the source; the third alternative of March is written with \<open>U+00E7\<close> there.
\<close>

definition MONTH_PATTERNS :: "(jsstring list \<times> jsstring) list" where
  "MONTH_PATTERNS =
     [([ustr ''jan'', ustr ''janeiro''], ustr ''jan''),
      ([ustr ''fev'', ustr ''fevereiro''], ustr ''fev''),
      ([ustr ''mar'', ustr ''marco'', ustr ''mar'' @ [0xE7] @ ustr ''o''], ustr ''mar''),
      ([ustr ''abr'', ustr ''abril''], ustr ''abr''),
      ([ustr ''mai'', ustr ''maio''], ustr ''mai''),
      ([ustr ''jun'', ustr ''junho''], ustr ''jun''),
      ([ustr ''jul'', ustr ''julho''], ustr ''jul''),
      ([ustr ''ago'', ustr ''agosto''], ustr ''ago''),
      ([ustr ''set'', ustr ''setembro''], ustr ''set''),
      ([ustr ''out'', ustr ''outubro''], ustr ''out''),
      ([ustr ''nov'', ustr ''novembro''], ustr ''nov''),
      ([ustr ''dez'', ustr ''dezembro''], ustr ''dez'')]"

text \<open>\<open>MONTH_ALIASES\<close>: the twelve month patterns, then the pattern of the total column.\<close>

definition MONTH_ALIASES :: "((jsstring \<Rightarrow> bool) \<times> jsstring) list" where
  "MONTH_ALIASES =
     map (\<lambda>(alts, k). (month_re alts, k)) MONTH_PATTERNS @ [(total_re, ustr ''total'')]"

text \<open>\<open>monthKey\<close>: the key of the first pattern of the table that matches; \<open>None\<close> is \<open>null\<close>.\<close>

definition monthKey :: "platform \<Rightarrow> jsstring \<Rightarrow> jsstring option" where
  "monthKey P cell =
     (let s = normalize_str P cell
      in case find (\<lambda>(re, key). re s) MONTH_ALIASES of
           None \<Rightarrow> None
         | Some (re, key) \<Rightarrow> Some key)"

section \<open>The grid\<close>

text \<open>
  The table reader hands over an array of rows, each an array of strings; rows differ
  in length. Reading an array out of range gives \<open>undefined\<close>, which is \<open>None\<close> here.
\<close>

type_synonym grid = "jsstring list list"

definition cell_at :: "'a list \<Rightarrow> nat \<Rightarrow> 'a option" where
  "cell_at xs i = (if i < length xs then Some (xs ! i) else None)"

text \<open>\<open>String(x ?? "")\<close> for a cell \<open>x\<close>.\<close>

definition text_of :: "jsstring option \<Rightarrow> jsstring" where
  "text_of x = (case x of None \<Rightarrow> [] | Some s \<Rightarrow> s)"

text \<open>\<open>data[i] || []\<close> and \<open>data[i] ?? []\<close> for a row.\<close>

definition row_or_empty :: "jsstring list option \<Rightarrow> jsstring list" where
  "row_or_empty x = (case x of None \<Rightarrow> [] | Some r \<Rightarrow> r)"

section \<open>Header and column locator\<close>

text \<open>\<open>row.map(monthKey).filter(Boolean).length\<close>; every key is a non-empty string.\<close>

definition month_hits :: "platform \<Rightarrow> jsstring list \<Rightarrow> nat" where
  "month_hits P row = length (filter (\<lambda>k. k \<noteq> None) (map (monthKey P) row))"

text \<open>
  The loop of lines 83 to 93 from row \<open>i\<close> on; the result is \<open>(headerIdx, titleCol)\<close>,
  which both start at \<open>1\<close>.
\<close>

function locate_from :: "platform \<Rightarrow> grid \<Rightarrow> nat \<Rightarrow> nat \<times> nat" where
  "locate_from P data i =
     (if i < min 5 (length data) then
        (let row = data ! i
         in if 3 \<le> month_hits P row then (i, if cell_at row 1 \<noteq> None then 1 else 0)
            else locate_from P data (Suc i))
      else (1, 1))"
  by pat_completeness auto
termination
  by (relation "measure (\<lambda>(P, data, i). min 5 (length data) - i)") auto

declare locate_from.simps [simp del]

definition locate_header :: "platform \<Rightarrow> grid \<Rightarrow> nat \<times> nat" where
  "locate_header P data = locate_from P data 0"

section \<open>Month-column mapper\<close>

record month_col =
  mes :: jsstring
  col :: nat
  raw :: jsstring

text \<open>\<open>Array.prototype.findIndex\<close>; \<open>None\<close> is \<open>-1\<close>.\<close>

fun findIndex :: "('a \<Rightarrow> bool) \<Rightarrow> 'a list \<Rightarrow> nat option" where
  "findIndex p [] = None"
| "findIndex p (x # xs) = (if p x then Some 0 else map_option Suc (findIndex p xs))"

definition start_col :: "platform \<Rightarrow> jsstring list \<Rightarrow> nat" where
  "start_col P header =
     (case findIndex (\<lambda>c. monthKey P c \<noteq> None) header of None \<Rightarrow> 2 | Some i \<Rightarrow> i)"

text \<open>\<open>nextIsAux\<close> of lines 108 to 111; \<open>below\<close> is the row under the header.\<close>

definition next_is_aux :: "jsstring list \<Rightarrow> jsstring list \<Rightarrow> nat \<Rightarrow> bool" where
  "next_is_aux header below idx =
     (let nextHeader = text_of (cell_at header (idx + 1));
          nextCell = trim (text_of (cell_at below (idx + 1)));
          nextNum = parsePtNumber (Some nextCell)
      in nextHeader = [] \<and> \<not> isNaN nextNum \<and> js_le (js_abs nextNum) (Num 5))"


text \<open>
  One pass through the body of the loop of lines 103 to 115 at column \<open>idx\<close>: what it
  pushes, and the column at which the next pass starts.
\<close>

definition walk_step ::
  "platform \<Rightarrow> jsstring list \<Rightarrow> jsstring list \<Rightarrow> nat \<Rightarrow> month_col option \<times> nat" where
  "walk_step P header below idx =
     (case monthKey P (header ! idx) of
        None \<Rightarrow> (None, idx + 1)
      | Some k \<Rightarrow>
          if k = ustr ''total'' then (None, idx + 1)
          else (Some \<lparr> mes = k, col = idx, raw = header ! idx \<rparr>,
                if next_is_aux header below idx then idx + 1 + 1 else idx + 1))"

function walk :: "platform \<Rightarrow> jsstring list \<Rightarrow> jsstring list \<Rightarrow> nat \<Rightarrow> month_col list" where
  "walk P header below idx =
     (if idx < length header then
        (case walk_step P header below idx of
           (None, nxt) \<Rightarrow> walk P header below nxt
         | (Some m, nxt) \<Rightarrow> m # walk P header below nxt)
      else [])"
  by pat_completeness auto
termination
proof (relation "measure (\<lambda>(P, header, below, idx). length header - idx)")
  show "wf (measure (\<lambda>(P, header, below, idx). length header - idx))"
    by simp
next
  fix P header below idx x y
  assume "idx < length header" and "(x, y) = walk_step P header below idx"
  then show "((P, header, below, y), P, header, below, idx)
               \<in> measure (\<lambda>(P, header, below, idx). length header - idx)"
    by (auto simp add: walk_step_def split: option.splits if_splits)
next
  fix P header below idx x y m
  assume "idx < length header" and "(x, y) = walk_step P header below idx"
  then show "((P, header, below, y), P, header, below, idx)
               \<in> measure (\<lambda>(P, header, below, idx). length header - idx)"
    by (auto simp add: walk_step_def split: option.splits if_splits)
qed

declare walk.simps [simp del]

text \<open>\<open>monthCols\<close> for the header row \<open>headerIdx\<close> of the grid.\<close>

definition month_columns :: "platform \<Rightarrow> grid \<Rightarrow> nat \<Rightarrow> month_col list" where
  "month_columns P data headerIdx =
     (let header = row_or_empty (cell_at data headerIdx);
          below = row_or_empty (cell_at data (headerIdx + 1))
      in walk P header below (start_col P header))"

section \<open>Account row extractor\<close>

text \<open>
  An object with string keys: the entries in insertion order, a key written again
  keeping its place (\<open>AList.update\<close>). A \<open>Map\<close> is modelled the same way.
\<close>

record account_row =
  name :: jsstring
  key :: jsstring
  "values" :: "(jsstring \<times> jsnum) list"

text \<open>\<open>replace(/\s+/g, "_")\<close>: each run of whitespace becomes one underscore.\<close>

function ws_to_underscore :: "jsstring \<Rightarrow> jsstring" where
  "ws_to_underscore [] = []"
| "ws_to_underscore (c # cs) =
     (if is_ws c then 0x5F # ws_to_underscore (dropWhile is_ws cs)
      else c # ws_to_underscore cs)"
  by pat_completeness auto
termination
  by (relation "measure length") (auto intro: le_imp_less_Suc length_dropWhile_le)

text \<open>What \<open>replace(/[()=+\-]/g, "")\<close> removes.\<close>

definition is_key_punct :: "nat \<Rightarrow> bool" where
  "is_key_punct c \<longleftrightarrow> c = 0x28 \<or> c = 0x29 \<or> c = 0x3D \<or> c = 0x2B \<or> c = 0x2D"

text \<open>Line 137 without its \<open>slice\<close>, which is also line 192.\<close>

definition variant_key :: "platform \<Rightarrow> jsstring \<Rightarrow> jsstring" where
  "variant_key P t =
     filter (\<lambda>c. \<not> is_key_punct c) (ws_to_underscore (normalize_str P t))"

definition keyNorm :: "platform \<Rightarrow> jsstring \<Rightarrow> jsstring" where
  "keyNorm P titleRaw = take 100 (variant_key P titleRaw)"

text \<open>\<open>hasAnyVal\<close> of line 128.\<close>

definition hasAnyVal :: "month_col list \<Rightarrow> jsstring list \<Rightarrow> bool" where
  "hasAnyVal monthCols row =
     list_ex (\<lambda>m. trim (text_of (cell_at row (col m))) \<noteq> []) monthCols"

text \<open>The \<open>values\<close> object of lines 131 to 135.\<close>

definition row_values :: "month_col list \<Rightarrow> jsstring list \<Rightarrow> (jsstring \<times> jsnum) list" where
  "row_values monthCols row =
     foldl (\<lambda>vs m. let val = parsePtNumber (cell_at row (col m))
                     in AList.update (mes m) (if isNaN val then Num 0 else val) vs)
           [] monthCols"

text \<open>The body of the loop of lines 122 to 144 for one row: \<open>None\<close> where it continues.\<close>

definition row_entry ::
  "platform \<Rightarrow> nat \<Rightarrow> month_col list \<Rightarrow> jsstring list \<Rightarrow> account_row option" where
  "row_entry P titleCol monthCols row =
     (let titleRaw = trim (text_of (cell_at row titleCol))
      in if titleRaw = [] then None
         else if \<not> hasAnyVal monthCols row then None
         else Some \<lparr> name = titleRaw, key = keyNorm P titleRaw,
                      values = row_values monthCols row \<rparr>)"

function extract_rows ::
  "platform \<Rightarrow> grid \<Rightarrow> nat \<Rightarrow> month_col list \<Rightarrow> nat \<Rightarrow> account_row list" where
  "extract_rows P data titleCol monthCols r =
     (if r < length data then
        (case row_entry P titleCol monthCols (row_or_empty (cell_at data r)) of
           None \<Rightarrow> extract_rows P data titleCol monthCols (Suc r)
         | Some a \<Rightarrow> a # extract_rows P data titleCol monthCols (Suc r))
      else [])"
  by pat_completeness auto
termination
  by (relation "measure (\<lambda>(P, data, titleCol, monthCols, r). length data - r)") auto

declare extract_rows.simps [simp del]

section \<open>The effect of the hook\<close>

text \<open>Lines 80 to 144: the rows and the months that a grid yields.\<close>

definition build_snapshot :: "platform \<Rightarrow> grid \<Rightarrow> account_row list \<times> jsstring list" where
  "build_snapshot P data =
     (let (headerIdx, titleCol) = locate_header P data;
          monthCols = month_columns P data headerIdx
      in (extract_rows P data titleCol monthCols (headerIdx + 1), map mes monthCols))"

text \<open>The three state variables of the hook, and the calls of their setters.\<close>

record snapshot =
  rows :: "account_row list"
  months :: "jsstring list"
  loading :: bool

datatype setter = SetRows "account_row list" | SetMonths "jsstring list" | SetLoading bool

fun apply_setter :: "snapshot \<Rightarrow> setter \<Rightarrow> snapshot" where
  "apply_setter s (SetRows r) = s\<lparr> rows := r \<rparr>"
| "apply_setter s (SetMonths m) = s\<lparr> months := m \<rparr>"
| "apply_setter s (SetLoading b) = s\<lparr> loading := b \<rparr>"

definition initial_snapshot :: snapshot where
  "initial_snapshot = \<lparr> rows = [], months = [], loading = True \<rparr>"

datatype error = TypeError | FetchError

text \<open>
  The \<open>try\<close> block of lines 71 to 152. \<open>fetched\<close> is what the awaited request and the
  table reader deliver: the grid, or the exception one of them throws. Everything
  after them is the total function \<open>build_snapshot\<close>, and the setters are called last.
\<close>

definition effect_calls :: "platform \<Rightarrow> error + grid \<Rightarrow> setter list" where
  "effect_calls P fetched =
     (case fetched of
        Inr data \<Rightarrow>
          (let (resultRows, monthsFound) = build_snapshot P data
           in [SetRows resultRows, SetMonths monthsFound, SetLoading False])
      | Inl e \<Rightarrow> [SetRows [], SetMonths [], SetLoading False])"

text \<open>The states that the calls publish one after the other, and the last of them.\<close>

fun published :: "snapshot \<Rightarrow> setter list \<Rightarrow> snapshot list" where
  "published s [] = []"
| "published s (c # cs) = apply_setter s c # published (apply_setter s c) cs"

definition final_snapshot :: "snapshot \<Rightarrow> setter list \<Rightarrow> snapshot" where
  "final_snapshot s cs = foldl apply_setter s cs"

section \<open>Alias resolver and value lookup\<close>

text \<open>\<open>map\<close> of lines 157 to 161.\<close>

definition build_index :: "account_row list \<Rightarrow> (jsstring \<times> account_row) list" where
  "build_index rs = foldl (\<lambda>m r. AList.update (key r) r m) [] rs"

text \<open>
  Reading a property of an object literal also finds what \<open>Object.prototype\<close> carries
  under that name: functions, and the prototype itself under \<open>__proto__\<close>.
\<close>

definition OBJECT_PROTOTYPE_NAMES :: "jsstring list" where
  "OBJECT_PROTOTYPE_NAMES =
     [ustr ''constructor'', ustr ''hasOwnProperty'', ustr ''isPrototypeOf'',
      ustr ''propertyIsEnumerable'', ustr ''toLocaleString'', ustr ''toString'',
      ustr ''valueOf'', ustr ''__proto__'', ustr ''__defineGetter__'',
      ustr ''__defineSetter__'', ustr ''__lookupGetter__'', ustr ''__lookupSetter__'']"

datatype 'a property = Own 'a | Inherited | Undefined

definition get_property :: "(jsstring \<times> 'a) list \<Rightarrow> jsstring \<Rightarrow> 'a property" where
  "get_property obj k =
     (case map_of obj k of
        Some v \<Rightarrow> Own v
      | None \<Rightarrow> if k \<in> set OBJECT_PROTOTYPE_NAMES then Inherited else Undefined)"

text \<open>The last variant of \<open>inadimplencia_mes\<close> is written with \<open>U+00EA\<close> in the source.\<close>

definition aliases :: "(jsstring \<times> jsstring list) list" where
  "aliases =
     [(ustr ''faturamento_bruto'', [ustr ''faturamento bruto'']),
      (ustr ''receitas_servicos'',
         [ustr ''receita da prestacao de servicos'', ustr ''receita prestacao de servicos'',
          ustr ''receita de servicos'']),
      (ustr ''receitas_revenda'', [ustr ''receita da revenda de mercadorias'']),
      (ustr ''receitas_fabricacao'',
         [ustr ''receita de fabricacao propria'', ustr ''receita de fabricacao propria'']),
      (ustr ''deducoes'',
         [ustr ''deducoes'', ustr ''deducoes estornos'', ustr ''devolucoes/estornos'',
          ustr ''deducoes (-)'']),
      (ustr ''receita_liquida'',
         [ustr ''receita liquida'', ustr ''receita liquida ='', ustr ''receita liquida (=)'']),
      (ustr ''custos_totais'',
         [ustr ''custos totais'', ustr ''custos totais ='', ustr ''custos totais (=)'']),
      (ustr ''custos_operacionais'',
         [ustr ''custos operacionais'', ustr ''custos operacionais (-)'']),
      (ustr ''despesas_adm'', [ustr ''despesas adm'', ustr ''despesas administrativas'']),
      (ustr ''despesas_comercial'', [ustr ''despesas comercial'', ustr ''despesas comerciais'']),
      (ustr ''despesas_logistica'',
         [ustr ''despesas com logistica'', ustr ''despesas com logistica'', ustr ''logistica'']),
      (ustr ''ebitda'', [ustr ''ebitda'']),
      (ustr ''lucro_operacional'',
         [ustr ''lucro operacional (ebit)'', ustr ''lucro operacional ebit'', ustr ''ebit'']),
      (ustr ''resultado_financeiro'', [ustr ''resultado financeiro'']),
      (ustr ''impostos_sobre_lucro'', [ustr ''impostos sobre o lucro'']),
      (ustr ''lucro_liquido'',
         [ustr ''lucro liquido'', ustr ''lucro liquido ='', ustr ''lucro liquido (=)'',
          ustr ''lucro liquido (+/-)'']),
      (ustr ''lucro_bruto'', [ustr ''lucro bruto'', ustr ''lucro bruto (=)'']),
      (ustr ''geracao_caixa'', [ustr ''geracao de caixa'', ustr ''geracao de caixa'']),
      (ustr ''inadimplencia_mes'',
         [ustr ''inadimplencia do mes'', ustr ''inadimplencia mes'',
          ustr ''inadimplencia do m'' @ [0xEA] @ ustr ''s'']),
      (ustr ''inadimplencia_acumulada'', [ustr ''inadimplencia acumulada'']),
      (ustr ''prazo_medio_receber'',
         [ustr ''pmr'', ustr ''prazo medio receber'', ustr ''prazo medio de recebimento'']),
      (ustr ''prazo_medio_pagar'',
         [ustr ''pmp'', ustr ''prazo medio pagar'', ustr ''prazo medio de pagamento''])]"

text \<open>\<open>String.prototype.includes\<close>.\<close>

fun str_includes :: "jsstring \<Rightarrow> jsstring \<Rightarrow> bool" where
  "str_includes [] k = (k = [])"
| "str_includes (c # cs) k = (take (length k) (c # cs) = k \<or> str_includes cs k)"

text \<open>Lines 193 to 196 for one normalized variant \<open>k\<close>: \<open>None\<close> where the loop goes on.\<close>

definition resolve_variant ::
  "(jsstring \<times> account_row) list \<Rightarrow> jsstring \<Rightarrow> account_row option" where
  "resolve_variant m k =
     (case map_of m k of
        Some obj \<Rightarrow> Some obj
      | None \<Rightarrow>
          (case find (\<lambda>(k', obj). str_includes k' k) m of
             Some (k', obj) \<Rightarrow> Some obj
           | None \<Rightarrow> None))"

fun resolve_variants ::
  "platform \<Rightarrow> (jsstring \<times> account_row) list \<Rightarrow> jsstring list \<Rightarrow> account_row option" where
  "resolve_variants P m [] = None"
| "resolve_variants P m (opt # opts) =
     (case resolve_variant m (variant_key P opt) of
        Some obj \<Rightarrow> Some obj
      | None \<Rightarrow> resolve_variants P m opts)"

text \<open>
  \<open>findRow\<close>. \<open>aliases[aliasKey] || []\<close> is the variant list of an own key and the empty
  list for an unknown one; for a name that \<open>Object.prototype\<close> carries it is a function or
  an object, which \<open>for ... of\<close> cannot iterate: a TypeError.
\<close>

definition findRow ::
  "platform \<Rightarrow> (jsstring \<times> account_row) list \<Rightarrow> jsstring \<Rightarrow> error + account_row option" where
  "findRow P m aliasKey =
     (case get_property aliases aliasKey of
        Own opts \<Rightarrow> Inr (resolve_variants P m opts)
      | Inherited \<Rightarrow> Inl TypeError
      | Undefined \<Rightarrow> Inr None)"

text \<open>
  \<open>valueAt\<close> on the published rows; the month is a string or absent. \<open>Number\<close> of an
  inherited property, a function or an object, is NaN.
\<close>

definition valueAt ::
  "platform \<Rightarrow> account_row list \<Rightarrow> jsstring \<Rightarrow> jsstring option \<Rightarrow> error + jsnum" where
  "valueAt P rs aliasKey month =
     (case findRow P (build_index rs) aliasKey of
        Inl e \<Rightarrow> Inl e
      | Inr None \<Rightarrow> Inr (Num 0)
      | Inr (Some row) \<Rightarrow>
          (let m = toLowerCase P (text_of month)
           in Inr (case get_property (values row) m of
                     Own v \<Rightarrow> v
                   | Inherited \<Rightarrow> NaN
                   | Undefined \<Rightarrow> Num 0)))"

text \<open>
  The same resolver with the branch that answered written beside the row: the \<open>map.has\<close>
  test of line 193, or the scan of lines 194 to 196.
\<close>

datatype branch = ExactMatch | SubstringMatch

definition resolve_variant_via ::
  "(jsstring \<times> account_row) list \<Rightarrow> jsstring \<Rightarrow> (branch \<times> account_row) option" where
  "resolve_variant_via m k =
     (case map_of m k of
        Some obj \<Rightarrow> Some (ExactMatch, obj)
      | None \<Rightarrow>
          (case find (\<lambda>(k', obj). str_includes k' k) m of
             Some (k', obj) \<Rightarrow> Some (SubstringMatch, obj)
           | None \<Rightarrow> None))"

fun resolve_variants_via ::
  "platform \<Rightarrow> (jsstring \<times> account_row) list \<Rightarrow> jsstring list
   \<Rightarrow> (jsstring \<times> branch \<times> account_row) option" where
  "resolve_variants_via P m [] = None"
| "resolve_variants_via P m (opt # opts) =
     (case resolve_variant_via m (variant_key P opt) of
        Some (b, obj) \<Rightarrow> Some (opt, b, obj)
      | None \<Rightarrow> resolve_variants_via P m opts)"

definition findRow_via ::
  "platform \<Rightarrow> (jsstring \<times> account_row) list \<Rightarrow> jsstring
   \<Rightarrow> error + (jsstring \<times> branch \<times> account_row) option" where
  "findRow_via P m aliasKey =
     (case get_property aliases aliasKey of
        Own opts \<Rightarrow> Inr (resolve_variants_via P m opts)
      | Inherited \<Rightarrow> Inl TypeError
      | Undefined \<Rightarrow> Inr None)"

section \<open>Sample sheets\<close>

text \<open>
  A statement with month columns, each followed by a column of ratios under an empty
  header, a column of totals, and a section label without figures.
\<close>

definition receita_liquida_title :: jsstring where
  "receita_liquida_title = ustr ''Receita L'' @ [0xED] @ ustr ''quida (=)''"

definition sample_header :: "jsstring list" where
  "sample_header =
     [[], ustr ''Conta'', ustr ''Jan/25'', [], ustr ''Fev/25'', [], ustr ''Mar/25'',
      ustr ''Total'']"

definition sample_receita :: "jsstring list" where
  "sample_receita =
     [[], receita_liquida_title, ustr ''1.234,56'', ustr ''1,0'', ustr ''2.000,50'',
      ustr ''0,5'', ustr ''(300,00)'', ustr ''2.935,06'']"

definition sample_despesas :: "jsstring list" where
  "sample_despesas = [[], ustr ''Despesas'', [], [], [], [], [], []]"

definition sample_ebitda :: "jsstring list" where
  "sample_ebitda = [[], ustr ''EBITDA'', ustr ''10'', [], ustr ''20'', [], ustr ''30'', ustr ''60'']"

definition sample_grid :: grid where
  "sample_grid = [sample_header, sample_receita, sample_despesas, sample_ebitda]"

text \<open>A sheet with two month cells only, too few for its first row to be taken as header.\<close>

definition two_month_grid :: grid where
  "two_month_grid =
     [[[], ustr ''Jan/25'', ustr ''Fev/25''],
      [ustr ''Receita'', ustr ''1.000,00'', ustr ''2.000,50'']]"

text \<open>The rows that the first sheet yields, with the Numbers of its cells written out.\<close>

definition sample_months :: "month_col list" where
  "sample_months =
     [\<lparr> mes = ustr ''jan'', col = 2, raw = ustr ''Jan/25'' \<rparr>,
      \<lparr> mes = ustr ''fev'', col = 4, raw = ustr ''Fev/25'' \<rparr>,
      \<lparr> mes = ustr ''mar'', col = 6, raw = ustr ''Mar/25'' \<rparr>]"

definition sample_rows :: "account_row list" where
  "sample_rows =
     [\<lparr> name = receita_liquida_title, key = ustr ''receita_liquida_'',
        values = [(ustr ''jan'', Num (2714826150374277 / 2199023255552)),
                  (ustr ''fev'', Num (4001 / 2)), (ustr ''mar'', Num (- 300))] \<rparr>,
      \<lparr> name = ustr ''EBITDA'', key = ustr ''ebitda'',
        values = [(ustr ''jan'', Num 10), (ustr ''fev'', Num 20), (ustr ''mar'', Num 30)] \<rparr>]"

section \<open>Notions used in the proofs\<close>

text \<open>Folding the upper-case letters of ASCII, and the lower-case letters of ASCII.\<close>

definition ascii_fold :: "nat \<Rightarrow> nat" where
  "ascii_fold c = (if 0x41 \<le> c \<and> c \<le> 0x5A then c + 0x20 else c)"

definition is_lower_ascii :: "nat \<Rightarrow> bool" where
  "is_lower_ascii c \<longleftrightarrow> 0x61 \<le> c \<and> c \<le> 0x7A"

section \<open>Properties of the locale number parser\<close>

lemma bit_length_0: "bit_length 0 = 0"
  by (simp add: bit_length.simps)

lemma bit_length_pos: "0 < n \<Longrightarrow> bit_length n = Suc (bit_length (n div 2))"
  by (subst bit_length.simps) simp

lemmas char_defs = ustr_def is_ws_def is_digit_def is_line_terminator_def

lemma to_double_1234_56: "to_double 123456 100 = Num (2714826150374277 / 2199023255552)"
  by (simp add: to_double_def binade_def bit_length_0 bit_length_pos pow2_def)

lemma parseFloat_1234_56: "parseFloat (ustr ''1234.56'') = to_double 123456 100"
  by (simp add: char_defs parseFloat_def unsigned_literal_def digits_value_def exponent_part_def)

lemma number_text_plain: "number_text (ustr ''1.234,56'') = (False, ustr ''1234.56'')"
  by (simp add: char_defs number_text_def remove_ws_def paren_wrapped_def ends_with_minus_def
      numeric_char_def)

lemma number_text_paren: "number_text (ustr ''(1.234,56)'') = (True, ustr ''1234.56'')"
  by (simp add: char_defs number_text_def remove_ws_def paren_wrapped_def ends_with_minus_def
      numeric_char_def)

lemma trim_plain: "trim (ustr ''1.234,56'') = ustr ''1.234,56''"
  by (simp add: char_defs trim_def)

lemma trim_paren: "trim (ustr ''(1.234,56)'') = ustr ''(1.234,56)''"
  by (simp add: char_defs trim_def)

lemma to_double_not_NaN: "to_double p q \<noteq> NaN"
  by (simp add: to_double_def Let_def)

lemma js_neg_NaN_iff: "js_neg v = NaN \<longleftrightarrow> v = NaN"
  by (cases v) simp_all

lemma parsePtNumber_not_NaN: "parsePtNumber x \<noteq> NaN"
  by (auto simp add: parsePtNumber_def isNaN_def Let_def js_neg_NaN_iff
      split: option.split prod.split)

lemma parsePtNumber_unparsed:
  "isNaN (parseFloat (snd (number_text (trim r)))) \<Longrightarrow> parsePtNumber (Some r) = Num 0"
  by (cases "number_text (trim r)") (simp add: parsePtNumber_def Let_def)

lemma parsePtNumber_plain: "parsePtNumber (Some (ustr ''1.234,56'')) = to_double 123456 100"
proof -
  have "ustr ''1.234,56'' \<noteq> []" "\<not> is_lone_dash (ustr ''1.234,56'')"
    by (simp_all add: ustr_def is_lone_dash_def)
  then show ?thesis
    by (simp add: parsePtNumber_def trim_plain number_text_plain parseFloat_1234_56
        to_double_1234_56 isNaN_def)
qed

lemma parsePtNumber_paren:
  "parsePtNumber (Some (ustr ''(1.234,56)'')) = js_neg (to_double 123456 100)"
proof -
  have "ustr ''(1.234,56)'' \<noteq> []" "\<not> is_lone_dash (ustr ''(1.234,56)'')"
    by (simp_all add: ustr_def is_lone_dash_def)
  then show ?thesis
    by (simp add: parsePtNumber_def trim_paren number_text_paren parseFloat_1234_56
        to_double_1234_56 isNaN_def)
qed

lemma parsePtNumber_blank:
  "parsePtNumber None = Num 0" "parsePtNumber (Some []) = Num 0"
  "parsePtNumber (Some [0x2D]) = Num 0" "parsePtNumber (Some [0x2013]) = Num 0"
  "parsePtNumber (Some [0x2014]) = Num 0"
  by (simp_all add: parsePtNumber_def trim_def is_ws_def is_lone_dash_def)

text \<open>
  Claim C1. The locale number parser returns the Number 1234.56 (the binary64 value
  nearest to the decimal, written out below) for \<open>1.234,56\<close> and its negation for
  \<open>(1.234,56)\<close>; it returns 0 for an absent cell, for the empty string and for a lone
  hyphen, en dash or em dash; it never returns NaN, and returns 0 whenever the text
  that reaches \<open>parseFloat\<close> does not parse. The parser is a total function, so it raises
  nothing.
\<close>

theorem parsePtNumber_spec:
  "parsePtNumber (Some (ustr ''1.234,56'')) = to_double 123456 100
   \<and> to_double 123456 100 = Num (2714826150374277 / 2199023255552)
   \<and> parsePtNumber (Some (ustr ''(1.234,56)'')) = js_neg (to_double 123456 100)
   \<and> js_neg (to_double 123456 100) = Num (- (2714826150374277 / 2199023255552))
   \<and> parsePtNumber None = Num 0
   \<and> parsePtNumber (Some []) = Num 0
   \<and> parsePtNumber (Some (ustr ''-'')) = Num 0
   \<and> parsePtNumber (Some [0x2013]) = Num 0
   \<and> parsePtNumber (Some [0x2014]) = Num 0
   \<and> (\<forall>x. parsePtNumber x \<noteq> NaN)
   \<and> (\<forall>r. isNaN (parseFloat (snd (number_text (trim r)))) \<longrightarrow> parsePtNumber (Some r) = Num 0)"
  using parsePtNumber_plain parsePtNumber_paren parsePtNumber_blank parsePtNumber_not_NaN
    parsePtNumber_unparsed
  by (simp add: to_double_1234_56 ustr_def)

lemma unparsed_abc: "isNaN (parseFloat (snd (number_text (trim (ustr ''abc'')))))"
  by (simp add: char_defs trim_def number_text_def remove_ws_def paren_wrapped_def
      ends_with_minus_def numeric_char_def parseFloat_def isNaN_def)

theorem parsePtNumber_spec_witness:
  "isNaN (parseFloat (snd (number_text (trim (ustr ''abc'')))))
   \<and> parsePtNumber (Some (ustr ''abc'')) = Num 0"
  using parsePtNumber_spec unparsed_abc by blast

section \<open>Properties of the header and column locator\<close>

lemma locate_from_done: "\<not> i < min 5 (length data) \<Longrightarrow> locate_from P data i = (1, 1)"
  by (subst locate_from.simps) auto

lemma locate_from_hit:
  "i < min 5 (length data) \<Longrightarrow> 3 \<le> month_hits P (data ! i)
   \<Longrightarrow> locate_from P data i = (i, if 1 < length (data ! i) then 1 else 0)"
  by (subst locate_from.simps) (simp add: cell_at_def)

lemma locate_from_miss:
  "i < min 5 (length data) \<Longrightarrow> \<not> 3 \<le> month_hits P (data ! i)
   \<Longrightarrow> locate_from P data i = locate_from P data (Suc i)"
  by (subst locate_from.simps) simp

lemma locate_from_below_threshold:
  "(\<And>j. i0 \<le> j \<Longrightarrow> j < min 5 (length data) \<Longrightarrow> month_hits P (data ! j) < 3)
   \<Longrightarrow> locate_from P data i0 = (1, 1)"
proof (induction P data i0 rule: locate_from.induct)
  case (1 P data i)
  show ?case
  proof (cases "i < min 5 (length data)")
    case True
    then have low: "\<not> 3 \<le> month_hits P (data ! i)"
      using "1.prems" [of i] by simp
    have "locate_from P data (Suc i) = (1, 1)"
    proof (rule "1.IH" [OF True refl low])
      fix j assume "Suc i \<le> j" "j < min 5 (length data)"
      then show "month_hits P (data ! j) < 3" using "1.prems" [of j] by simp
    qed
    then show ?thesis
      by (simp add: locate_from_miss [OF True low])
  next
    case False
    then show ?thesis by (rule locate_from_done)
  qed
qed

lemma locate_from_first_hit:
  "i0 \<le> i \<Longrightarrow> i < min 5 (length data) \<Longrightarrow> 3 \<le> month_hits P (data ! i)
   \<Longrightarrow> (\<And>j. i0 \<le> j \<Longrightarrow> j < i \<Longrightarrow> month_hits P (data ! j) < 3)
   \<Longrightarrow> locate_from P data i0 = (i, if 1 < length (data ! i) then 1 else 0)"
proof (induction P data i0 rule: locate_from.induct)
  case (1 P data i0)
  have in_window: "i0 < min 5 (length data)"
    using "1.prems"(1,2) by simp
  show ?case
  proof (cases "i0 = i")
    case True
    with "1.prems"(2,3) show ?thesis
      by (simp add: locate_from_hit)
  next
    case False
    then have lt: "i0 < i" using "1.prems"(1) by simp
    then have low: "\<not> 3 \<le> month_hits P (data ! i0)"
      using "1.prems"(4) [of i0] by simp
    have "locate_from P data (Suc i0) = (i, if 1 < length (data ! i) then 1 else 0)"
    proof (rule "1.IH" [OF in_window refl low])
      show "Suc i0 \<le> i" using lt by simp
      show "i < min 5 (length data)" by (rule "1.prems"(2))
      show "3 \<le> month_hits P (data ! i)" by (rule "1.prems"(3))
    next
      fix j assume "Suc i0 \<le> j" "j < i"
      then show "month_hits P (data ! j) < 3" using "1.prems"(4) [of j] by simp
    qed
    then show ?thesis
      by (simp add: locate_from_miss [OF in_window low])
  qed
qed

lemma locate_from_take: "locate_from P (take 5 data) i = locate_from P data i"
proof (induction P data i rule: locate_from.induct)
  case (1 P data i)
  show ?case
  proof (cases "i < min 5 (length data)")
    case True
    then have nth: "take 5 data ! i = data ! i" by simp
    from True have True': "i < min 5 (length (take 5 data))" by simp
    show ?thesis
    proof (cases "3 \<le> month_hits P (data ! i)")
      case hit: True
      then show ?thesis
        using locate_from_hit [OF True hit] locate_from_hit [OF True', of P] nth by simp
    next
      case miss: False
      then show ?thesis
        using "1.IH" [OF True refl miss] locate_from_miss [OF True miss]
          locate_from_miss [OF True', of P] nth by simp
    qed
  next
    case False
    then have "\<not> i < min 5 (length (take 5 data))" by auto
    with False show ?thesis
      by (simp add: locate_from_done)
  qed
qed

text \<open>
  Claim C4. The locator looks at the first five rows of the grid and at no other; the
  header row is the first of them with at least three cells that the month classifier
  recognises, and the title column is then 1 when that row has a cell at index 1 and 0
  otherwise; when no row of the window has three hits the header row is 1 and the title
  column 1. In particular a grid whose row 0 has three hits has header row 0.
\<close>

theorem locate_header_spec:
  "locate_header P data = locate_header P (take 5 data)
   \<and> (\<forall>i. i < min 5 (length data) \<and> 3 \<le> month_hits P (data ! i)
          \<and> (\<forall>j. j < i \<longrightarrow> month_hits P (data ! j) < 3)
        \<longrightarrow> locate_header P data = (i, if 1 < length (data ! i) then 1 else 0))
   \<and> ((\<forall>i. i < min 5 (length data) \<longrightarrow> month_hits P (data ! i) < 3)
        \<longrightarrow> locate_header P data = (1, 1))
   \<and> (data \<noteq> [] \<and> 3 \<le> month_hits P (data ! 0) \<longrightarrow> fst (locate_header P data) = 0)"
proof (intro conjI allI impI)
  show "locate_header P data = locate_header P (take 5 data)"
    by (simp add: locate_header_def locate_from_take)
next
  fix i
  assume "i < min 5 (length data) \<and> 3 \<le> month_hits P (data ! i)
          \<and> (\<forall>j. j < i \<longrightarrow> month_hits P (data ! j) < 3)"
  then show "locate_header P data = (i, if 1 < length (data ! i) then 1 else 0)"
    unfolding locate_header_def by (intro locate_from_first_hit) simp_all
next
  assume "\<forall>i. i < min 5 (length data) \<longrightarrow> month_hits P (data ! i) < 3"
  then show "locate_header P data = (1, 1)"
    unfolding locate_header_def by (intro locate_from_below_threshold) simp
next
  assume "data \<noteq> [] \<and> 3 \<le> month_hits P (data ! 0)"
  then have "locate_from P data 0 = (0, if 1 < length (data ! 0) then 1 else 0)"
    by (intro locate_from_first_hit) simp_all
  then show "fst (locate_header P data) = 0"
    by (simp add: locate_header_def)
qed

lemmas month_defs = normalize_str_def is_combining_mark_def trim_def
  latin1_nfd_def latin1_decompositions_def latin1_lower_char_def latin1_platform_def
  ci_eq_def digits_2_4_def is_separator_def year_suffix_def month_re_def total_re_def
  MONTH_PATTERNS_def MONTH_ALIASES_def monthKey_def

lemma sample_header_keys:
  "monthKey latin1_platform [] = None"
  "monthKey latin1_platform (ustr ''Conta'') = None"
  "monthKey latin1_platform (ustr ''Jan/25'') = Some (ustr ''jan'')"
  "monthKey latin1_platform (ustr ''Fev/25'') = Some (ustr ''fev'')"
  "monthKey latin1_platform (ustr ''Mar/25'') = Some (ustr ''mar'')"
  "monthKey latin1_platform (ustr ''Total'') = Some (ustr ''total'')"
  by (simp_all add: char_defs month_defs)

lemma sample_rows_of_grid:
  "sample_grid ! 0 = sample_header" "length sample_grid = 4"
  "row_or_empty (cell_at sample_grid 0) = sample_header"
  "row_or_empty (cell_at sample_grid 1) = sample_receita"
  "row_or_empty (cell_at sample_grid (Suc 0)) = sample_receita"
  by (simp_all add: sample_grid_def cell_at_def row_or_empty_def)

lemma sample_header_length: "length sample_header = 8"
  by (simp add: sample_header_def)

lemma sample_hits: "month_hits latin1_platform sample_header = 4"
  by (simp add: month_hits_def sample_header_def sample_header_keys)

lemma two_month_hits:
  "month_hits latin1_platform (two_month_grid ! 0) = 2"
  "month_hits latin1_platform (two_month_grid ! Suc 0) = 0"
proof -
  have "monthKey latin1_platform (ustr ''Receita'') = None"
    "monthKey latin1_platform (ustr ''1.000,00'') = None"
    "monthKey latin1_platform (ustr ''2.000,50'') = None"
    by (simp_all add: char_defs month_defs)
  then show "month_hits latin1_platform (two_month_grid ! 0) = 2"
    "month_hits latin1_platform (two_month_grid ! Suc 0) = 0"
    by (simp_all add: month_hits_def two_month_grid_def sample_header_keys)
qed

theorem locate_header_spec_witness:
  "0 < min 5 (length sample_grid) \<and> 3 \<le> month_hits latin1_platform (sample_grid ! 0)
   \<and> locate_header latin1_platform sample_grid = (0, 1)
   \<and> month_hits latin1_platform (two_month_grid ! 0) < 3
   \<and> month_hits latin1_platform (two_month_grid ! 1) < 3
   \<and> locate_header latin1_platform two_month_grid = (1, 1)"
proof -
  have hyp: "0 < min 5 (length sample_grid) \<and> 3 \<le> month_hits latin1_platform (sample_grid ! 0)
      \<and> (\<forall>j. j < 0 \<longrightarrow> month_hits latin1_platform (sample_grid ! j) < 3)"
    by (simp add: sample_hits sample_rows_of_grid)
  have "locate_header latin1_platform sample_grid =
      (0, if 1 < length (sample_grid ! 0) then 1 else 0)"
    using locate_header_spec [of latin1_platform sample_grid] hyp by blast
  moreover have "1 < length (sample_grid ! 0)"
    by (simp add: sample_rows_of_grid sample_header_def)
  moreover have low: "\<forall>i. i < min 5 (length two_month_grid)
      \<longrightarrow> month_hits latin1_platform (two_month_grid ! i) < 3"
  proof (intro allI impI)
    fix i assume "i < min 5 (length two_month_grid)"
    then have "i = 0 \<or> i = Suc 0"
      by (auto simp add: two_month_grid_def)
    then show "month_hits latin1_platform (two_month_grid ! i) < 3"
      using two_month_hits by auto
  qed
  then have "locate_header latin1_platform two_month_grid = (1, 1)"
    using locate_header_spec [of latin1_platform two_month_grid] by blast
  ultimately show ?thesis
    using hyp two_month_hits by simp
qed

section \<open>Properties of the month classifier\<close>

lemma ci_eq_refl: "ci_eq p p"
  by (simp add: ci_eq_def)

lemma ci_prefix_self: "ci_prefix a (a @ t) = Some t"
  by (induction a) (simp_all add: ci_eq_refl)

lemma ci_eq_fold: "ci_eq p c \<Longrightarrow> is_lower_ascii p \<Longrightarrow> ascii_fold c = p"
  by (auto simp add: ci_eq_def is_lower_ascii_def ascii_fold_def)

lemma ci_prefix_fold3:
  assumes "ci_prefix (a # b # c # rest) s = Some t"
    and "is_lower_ascii a" "is_lower_ascii b" "is_lower_ascii c"
  shows "map ascii_fold (take 3 s) = [a, b, c]"
proof -
  from assms(1) obtain x y z s' where s: "s = x # y # z # s'"
    by (cases s; cases "tl s"; cases "tl (tl s)") (auto split: if_splits)
  with assms(1) have "ci_eq a x" "ci_eq b y" "ci_eq c z"
    by (auto split: if_splits)
  with assms(2-4) s show ?thesis
    by (simp add: ci_eq_fold numeral_3_eq_3)
qed

lemma month_patterns_shape:
  "(alts, k) \<in> set MONTH_PATTERNS \<Longrightarrow> alt \<in> set alts
   \<Longrightarrow> \<exists>a b c rest. alt = a # b # c # rest \<and> k = [a, b, c]
         \<and> is_lower_ascii a \<and> is_lower_ascii b \<and> is_lower_ascii c"
  by (auto simp add: MONTH_PATTERNS_def ustr_def is_lower_ascii_def)

lemma month_re_tag:
  assumes "(alts, k) \<in> set MONTH_PATTERNS" and "month_re alts s"
  shows "map ascii_fold (take 3 s) = k"
proof -
  from assms(2) obtain alt t where alt: "alt \<in> set alts" "ci_prefix alt s = Some t"
    by (auto simp add: month_re_def list_ex_iff split: option.splits)
  from month_patterns_shape [OF assms(1) alt(1)] obtain a b c rest
    where "alt = a # b # c # rest" "k = [a, b, c]"
      "is_lower_ascii a" "is_lower_ascii b" "is_lower_ascii c"
    by blast
  with alt(2) show ?thesis
    using ci_prefix_fold3 by simp
qed

lemma total_re_tag:
  assumes "total_re s"
  shows "map ascii_fold (take 3 s) = ustr ''tot''"
proof -
  have "ci_prefix (0x74 # 0x6F # 0x74 # ustr ''al'') s = Some []"
    using assms by (simp add: total_re_def ustr_def)
  from ci_prefix_fold3 [OF this] show ?thesis
    by (simp add: is_lower_ascii_def ustr_def)
qed

lemma aliases_entry:
  "(re, k) \<in> set MONTH_ALIASES \<longleftrightarrow>
     (\<exists>alts. (alts, k) \<in> set MONTH_PATTERNS \<and> re = month_re alts)
     \<or> (re = total_re \<and> k = ustr ''total'')"
  by (auto simp add: MONTH_ALIASES_def)

lemma month_keys: "(alts, k) \<in> set MONTH_PATTERNS \<Longrightarrow> take 3 k = k \<and> k \<noteq> ustr ''tot''"
  by (auto simp add: MONTH_PATTERNS_def ustr_def)

lemma aliases_tag:
  assumes "(re, k) \<in> set MONTH_ALIASES" and "re s"
  shows "map ascii_fold (take 3 s) = take 3 k"
  using assms month_re_tag total_re_tag month_keys
  by (auto simp add: aliases_entry ustr_def)

lemma aliases_key_of_tag:
  assumes "(re, k) \<in> set MONTH_ALIASES" and "(re', k') \<in> set MONTH_ALIASES"
    and "take 3 k = take 3 k'"
  shows "k = k'"
proof -
  have "k \<in> set (map snd MONTH_ALIASES)" "k' \<in> set (map snd MONTH_ALIASES)"
    using assms(1,2) by force+
  moreover have "inj_on (take 3) (set (map snd MONTH_ALIASES))"
    by (simp add: MONTH_ALIASES_def MONTH_PATTERNS_def ustr_def)
  ultimately show ?thesis
    using assms(3) by (auto dest: inj_onD)
qed

lemma aliases_disjoint:
  assumes "(re, k) \<in> set MONTH_ALIASES" "re s" "(re', k') \<in> set MONTH_ALIASES" "re' s"
  shows "k = k'"
  using aliases_key_of_tag [OF assms(1,3)] aliases_tag [OF assms(1,2)] aliases_tag [OF assms(3,4)]
  by simp

lemma find_SomeD: "find p xs = Some e \<Longrightarrow> e \<in> set xs \<and> p e"
  by (induction xs) (auto split: if_splits)

lemma monthKey_Some_iff:
  "monthKey P cell = Some k \<longleftrightarrow> (\<exists>re. (re, k) \<in> set MONTH_ALIASES \<and> re (normalize_str P cell))"
proof
  assume "monthKey P cell = Some k"
  then obtain re where "find (\<lambda>(re, key). re (normalize_str P cell)) MONTH_ALIASES = Some (re, k)"
    by (auto simp add: monthKey_def Let_def split: option.splits)
  from find_SomeD [OF this]
  show "\<exists>re. (re, k) \<in> set MONTH_ALIASES \<and> re (normalize_str P cell)"
    by auto
next
  assume "\<exists>re. (re, k) \<in> set MONTH_ALIASES \<and> re (normalize_str P cell)"
  then obtain re where re: "(re, k) \<in> set MONTH_ALIASES" "re (normalize_str P cell)"
    by blast
  then have "find (\<lambda>(re, key). re (normalize_str P cell)) MONTH_ALIASES \<noteq> None"
    by (auto simp add: find_None_iff)
  then obtain re' k' where
    found: "find (\<lambda>(re, key). re (normalize_str P cell)) MONTH_ALIASES = Some (re', k')"
    by auto
  from find_SomeD [OF this]
  have "(re', k') \<in> set MONTH_ALIASES" "re' (normalize_str P cell)"
    by auto
  from aliases_disjoint [OF this re] found show "monthKey P cell = Some k"
    by (simp add: monthKey_def)
qed

lemma monthKey_None_iff:
  "monthKey P cell = None \<longleftrightarrow> (\<forall>(re, k) \<in> set MONTH_ALIASES. \<not> re (normalize_str P cell))"
proof -
  have "monthKey P cell = None \<longleftrightarrow>
      find (\<lambda>(re, key). re (normalize_str P cell)) MONTH_ALIASES = None"
    by (auto simp add: monthKey_def Let_def split: option.splits)
  then show ?thesis
    by (auto simp add: find_None_iff)
qed

lemma monthKey_first:
  assumes "MONTH_ALIASES = pre @ e # post" and "fst e (normalize_str P cell)"
    and "\<forall>e' \<in> set pre. \<not> fst e' (normalize_str P cell)"
  shows "monthKey P cell = Some (snd e)"
proof -
  have "find (\<lambda>(re, key). re (normalize_str P cell)) (pre @ e # post) = Some e"
    using assms(2,3) by (induction pre) (auto split: prod.splits)
  then show ?thesis
    by (simp add: monthKey_def assms(1) split: prod.split)
qed

lemma monthKey_variant:
  assumes "(alts, k) \<in> set MONTH_PATTERNS" and "base \<in> set alts" and "year_suffix sfx"
    and "normalize_str P cell = base @ sfx"
  shows "monthKey P cell = Some k"
proof -
  have "month_re alts (normalize_str P cell)"
    using assms(2-4) by (auto simp add: month_re_def list_ex_iff ci_prefix_self intro!: bexI [of _ base])
  moreover have "(month_re alts, k) \<in> set MONTH_ALIASES"
    using assms(1) by (auto simp add: aliases_entry)
  ultimately show ?thesis
    by (auto simp add: monthKey_Some_iff)
qed

lemma monthKey_total:
  assumes "normalize_str P cell = ustr ''total''"
  shows "monthKey P cell = Some (ustr ''total'')"
proof -
  have "total_re (normalize_str P cell)"
    using ci_prefix_self [of "ustr ''total''" "[]"] by (simp add: total_re_def assms)
  moreover have "(total_re, ustr ''total'') \<in> set MONTH_ALIASES"
    by (simp add: aliases_entry)
  ultimately show ?thesis
    by (auto simp add: monthKey_Some_iff)
qed

lemma monthKey_shape:
  assumes "monthKey P cell = Some k"
  shows "(\<exists>alts base t. (alts, k) \<in> set MONTH_PATTERNS \<and> base \<in> set alts
            \<and> ci_prefix base (normalize_str P cell) = Some t \<and> year_suffix t)
         \<or> (k = ustr ''total'' \<and> ci_prefix (ustr ''total'') (normalize_str P cell) = Some [])"
proof -
  from assms obtain re where re: "(re, k) \<in> set MONTH_ALIASES" "re (normalize_str P cell)"
    by (auto simp add: monthKey_Some_iff)
  then show ?thesis
    by (auto simp add: aliases_entry month_re_def list_ex_iff total_re_def split: option.splits)
qed

lemma monthKey_examples:
  "monthKey latin1_platform (ustr ''jan'') = Some (ustr ''jan'')"
  "monthKey latin1_platform (ustr ''MAR'' @ [0xC7] @ ustr ''O'') = Some (ustr ''mar'')"
  "monthKey latin1_platform (ustr ''marco'') = Some (ustr ''mar'')"
  "monthKey latin1_platform (ustr ''Receita'') = None"
  by (simp_all add: char_defs month_defs)

text \<open>
  Claim C5. The key depends on the cell through its normalized text only. Whenever the
  normalized text is one of the names or abbreviations of the twelve months, alone or
  followed by two to four digits behind at most one separator (\<open>/\<close>, \<open>-\<close> or
  whitespace), the classifier returns the three-letter key of that month, which is the
  key of the base form itself; the text \<open>total\<close> gives the key \<open>total\<close>. A cell has a key
  only if its normalized text is such a form up to the case of its letters, and no key
  otherwise. The key is that of the first pattern of the table that matches. So
  \<open>Jan/25\<close> has the key of \<open>jan\<close> and \<open>MAR\<close>\<open>U+00C7\<close>\<open>O\<close> the key of \<open>marco\<close>.
\<close>

theorem monthKey_spec:
  "(\<forall>cell'. normalize_str P cell = normalize_str P cell' \<longrightarrow> monthKey P cell = monthKey P cell')
   \<and> (\<forall>(alts, k) \<in> set MONTH_PATTERNS. \<forall>base \<in> set alts. \<forall>sfx.
         year_suffix sfx \<and> normalize_str P cell = base @ sfx \<longrightarrow> monthKey P cell = Some k)
   \<and> (\<forall>(alts, k) \<in> set MONTH_PATTERNS. \<forall>base \<in> set alts. take 3 base = k \<and> length k = 3)
   \<and> (normalize_str P cell = ustr ''total'' \<longrightarrow> monthKey P cell = Some (ustr ''total''))
   \<and> (\<forall>k. monthKey P cell = Some k \<longrightarrow>
         (\<exists>alts base t. (alts, k) \<in> set MONTH_PATTERNS \<and> base \<in> set alts
            \<and> ci_prefix base (normalize_str P cell) = Some t \<and> year_suffix t)
         \<or> (k = ustr ''total'' \<and> ci_prefix (ustr ''total'') (normalize_str P cell) = Some []))
   \<and> (monthKey P cell = None \<longleftrightarrow> (\<forall>(re, k) \<in> set MONTH_ALIASES. \<not> re (normalize_str P cell)))
   \<and> (\<forall>pre e post. MONTH_ALIASES = pre @ e # post \<and> fst e (normalize_str P cell)
          \<and> (\<forall>e' \<in> set pre. \<not> fst e' (normalize_str P cell))
        \<longrightarrow> monthKey P cell = Some (snd e))
   \<and> monthKey latin1_platform (ustr ''Jan/25'') = monthKey latin1_platform (ustr ''jan'')
   \<and> monthKey latin1_platform (ustr ''jan'') = Some (ustr ''jan'')
   \<and> monthKey latin1_platform (ustr ''MAR'' @ [0xC7] @ ustr ''O'')
       = monthKey latin1_platform (ustr ''marco'')
   \<and> monthKey latin1_platform (ustr ''marco'') = Some (ustr ''mar'')"
proof (intro conjI)
  show "\<forall>cell'. normalize_str P cell = normalize_str P cell' \<longrightarrow> monthKey P cell = monthKey P cell'"
    by (simp add: monthKey_def)
  show "\<forall>(alts, k) \<in> set MONTH_PATTERNS. \<forall>base \<in> set alts. \<forall>sfx.
         year_suffix sfx \<and> normalize_str P cell = base @ sfx \<longrightarrow> monthKey P cell = Some k"
    using monthKey_variant by blast
  show "\<forall>(alts, k) \<in> set MONTH_PATTERNS. \<forall>base \<in> set alts. take 3 base = k \<and> length k = 3"
    using month_patterns_shape by fastforce
  show "normalize_str P cell = ustr ''total'' \<longrightarrow> monthKey P cell = Some (ustr ''total'')"
    using monthKey_total by blast
  show "\<forall>k. monthKey P cell = Some k \<longrightarrow>
         (\<exists>alts base t. (alts, k) \<in> set MONTH_PATTERNS \<and> base \<in> set alts
            \<and> ci_prefix base (normalize_str P cell) = Some t \<and> year_suffix t)
         \<or> (k = ustr ''total'' \<and> ci_prefix (ustr ''total'') (normalize_str P cell) = Some [])"
    using monthKey_shape by blast
  show "monthKey P cell = None \<longleftrightarrow> (\<forall>(re, k) \<in> set MONTH_ALIASES. \<not> re (normalize_str P cell))"
    by (rule monthKey_None_iff)
  show "\<forall>pre e post. MONTH_ALIASES = pre @ e # post \<and> fst e (normalize_str P cell)
          \<and> (\<forall>e' \<in> set pre. \<not> fst e' (normalize_str P cell))
        \<longrightarrow> monthKey P cell = Some (snd e)"
    using monthKey_first by blast
  show "monthKey latin1_platform (ustr ''Jan/25'') = monthKey latin1_platform (ustr ''jan'')"
    by (simp only: monthKey_examples sample_header_keys)
  show "monthKey latin1_platform (ustr ''jan'') = Some (ustr ''jan'')"
    by (simp only: monthKey_examples)
  show "monthKey latin1_platform (ustr ''MAR'' @ [0xC7] @ ustr ''O'')
       = monthKey latin1_platform (ustr ''marco'')"
    by (simp only: monthKey_examples)
  show "monthKey latin1_platform (ustr ''marco'') = Some (ustr ''mar'')"
    by (simp only: monthKey_examples)
qed

lemma normalize_Jan_25: "normalize_str latin1_platform (ustr ''Jan/25'') = ustr ''jan'' @ ustr ''/25''"
  by (simp add: char_defs month_defs)

lemma year_suffix_25: "year_suffix (ustr ''/25'')"
  by (simp add: char_defs year_suffix_def digits_2_4_def is_separator_def)

theorem monthKey_spec_witness:
  "([ustr ''jan'', ustr ''janeiro''], ustr ''jan'') \<in> set MONTH_PATTERNS
   \<and> year_suffix (ustr ''/25'')
   \<and> normalize_str latin1_platform (ustr ''Jan/25'') = ustr ''jan'' @ ustr ''/25''
   \<and> monthKey latin1_platform (ustr ''Jan/25'') = Some (ustr ''jan'')"
proof -
  have entry: "([ustr ''jan'', ustr ''janeiro''], ustr ''jan'') \<in> set MONTH_PATTERNS"
    by (simp add: MONTH_PATTERNS_def)
  have "\<forall>(alts, k) \<in> set MONTH_PATTERNS. \<forall>base \<in> set alts. \<forall>sfx.
         year_suffix sfx \<and> normalize_str latin1_platform (ustr ''Jan/25'') = base @ sfx
         \<longrightarrow> monthKey latin1_platform (ustr ''Jan/25'') = Some k"
    using monthKey_spec [of latin1_platform "ustr ''Jan/25''"] by blast
  with entry have "\<forall>sfx. year_suffix sfx
      \<and> normalize_str latin1_platform (ustr ''Jan/25'') = ustr ''jan'' @ sfx
      \<longrightarrow> monthKey latin1_platform (ustr ''Jan/25'') = Some (ustr ''jan'')"
    by fastforce
  with year_suffix_25 normalize_Jan_25 entry show ?thesis
    by blast
qed

section \<open>Properties of the month-column mapper\<close>

lemma walk_step_advances: "idx < snd (walk_step P header below idx)"
  by (simp add: walk_step_def split: option.split)

lemma walk_step_emits:
  "fst (walk_step P header below idx) = Some m
   \<Longrightarrow> col m = idx \<and> mes m \<noteq> ustr ''total'' \<and> raw m = header ! idx
       \<and> monthKey P (header ! idx) = Some (mes m)"
  by (auto simp add: walk_step_def split: option.splits if_splits)

lemma walk_step_month:
  "monthKey P (header ! idx) = Some k \<Longrightarrow> k \<noteq> ustr ''total''
   \<Longrightarrow> walk_step P header below idx =
         (Some \<lparr> mes = k, col = idx, raw = header ! idx \<rparr>,
          if next_is_aux header below idx then idx + 2 else idx + 1)"
  by (simp add: walk_step_def)

lemma walk_done: "\<not> idx < length header \<Longrightarrow> walk P header below idx = []"
  by (subst walk.simps) simp

lemma walk_silent:
  "idx < length header \<Longrightarrow> fst (walk_step P header below idx) = None
   \<Longrightarrow> walk P header below idx = walk P header below (snd (walk_step P header below idx))"
  by (subst walk.simps, cases "walk_step P header below idx") simp

lemma walk_emit:
  "idx < length header \<Longrightarrow> fst (walk_step P header below idx) = Some m
   \<Longrightarrow> walk P header below idx = m # walk P header below (snd (walk_step P header below idx))"
  by (subst walk.simps, cases "walk_step P header below idx") simp

lemma walk_invariant:
  "(\<forall>m \<in> set (walk P header below idx). idx \<le> col m \<and> mes m \<noteq> ustr ''total'')
   \<and> sorted_wrt (\<lambda>a b. col a < col b) (walk P header below idx)"
proof (induction "length header - idx" arbitrary: idx rule: less_induct)
  case less
  show ?case
  proof (cases "idx < length header")
    case False
    then show ?thesis by (simp add: walk_done)
  next
    case True
    let ?nxt = "snd (walk_step P header below idx)"
    have adv: "idx < ?nxt" by (rule walk_step_advances)
    with True have "length header - ?nxt < length header - idx" by simp
    from less [OF this]
    have IH: "\<forall>m \<in> set (walk P header below ?nxt). ?nxt \<le> col m \<and> mes m \<noteq> ustr ''total''"
      "sorted_wrt (\<lambda>a b. col a < col b) (walk P header below ?nxt)"
      by simp_all
    show ?thesis
    proof (cases "fst (walk_step P header below idx)")
      case None
      with True IH adv show ?thesis
        by (auto simp add: walk_silent)
    next
      case (Some m)
      from walk_step_emits [OF Some] have "col m = idx" "mes m \<noteq> ustr ''total''"
        by simp_all
      with True IH adv Some show ?thesis
        by (auto simp add: walk_emit)
    qed
  qed
qed

lemma findIndex_Some:
  "findIndex p xs = Some j \<Longrightarrow> j < length xs \<and> p (xs ! j) \<and> (\<forall>i < j. \<not> p (xs ! i))"
proof (induction xs arbitrary: j)
  case Nil
  then show ?case by simp
next
  case (Cons x xs)
  show ?case
  proof (cases "p x")
    case True
    with Cons.prems show ?thesis by simp
  next
    case False
    with Cons.prems obtain j' where j': "findIndex p xs = Some j'" "j = Suc j'"
      by auto
    from Cons.IH [OF j'(1)] False j'(2) show ?thesis
      by (auto simp add: nth_Cons split: nat.split)
  qed
qed

lemma findIndex_None: "findIndex p xs = None \<Longrightarrow> \<forall>x \<in> set xs. \<not> p x"
  by (induction xs) (auto split: if_splits)

lemma start_col_le:
  assumes "i < length header" and "monthKey P (header ! i) \<noteq> None"
  shows "start_col P header \<le> i"
proof (cases "findIndex (\<lambda>c. monthKey P c \<noteq> None) header")
  case None
  from findIndex_None [OF None] assms show ?thesis by auto
next
  case (Some j)
  from findIndex_Some [OF Some] assms have "\<not> i < j" by auto
  with Some show ?thesis by (simp add: start_col_def)
qed

lemma next_is_aux_header:
  "next_is_aux header below idx \<Longrightarrow> Suc idx < length header \<Longrightarrow> header ! Suc idx = []"
  by (simp add: next_is_aux_def Let_def cell_at_def text_of_def)

lemma walk_records:
  assumes sane: "monthKey P [] = None"
    and i: "i < length header" and k: "monthKey P (header ! i) = Some k" "k \<noteq> ustr ''total''"
  shows "idx \<le> i \<Longrightarrow> \<lparr> mes = k, col = i, raw = header ! i \<rparr> \<in> set (walk P header below idx)"
proof (induction "i - idx" arbitrary: idx rule: less_induct)
  case less
  from less.prems i have in_range: "idx < length header" by simp
  let ?nxt = "snd (walk_step P header below idx)"
  show ?case
  proof (cases "idx = i")
    case True
    with in_range walk_step_month [OF k, of below] show ?thesis
      by (simp add: walk_emit)
  next
    case False
    with less.prems have lt: "idx < i" by simp
    have "?nxt \<le> i"
    proof (rule ccontr)
      assume "\<not> ?nxt \<le> i"
      moreover have "?nxt \<le> idx + 2"
        by (simp add: walk_step_def split: option.split)
      ultimately have nxt: "?nxt = idx + 2" and i_eq: "i = Suc idx"
        using lt by simp_all
      from nxt have "next_is_aux header below idx"
        by (simp add: walk_step_def split: option.splits if_splits)
      from next_is_aux_header [OF this] i i_eq have "header ! i = []" by simp
      with sane k show False by simp
    qed
    moreover have "idx < ?nxt" by (rule walk_step_advances)
    ultimately have "i - ?nxt < i - idx" using lt by simp
    from less.hyps [OF this \<open>?nxt \<le> i\<close>]
    have "\<lparr> mes = k, col = i, raw = header ! i \<rparr> \<in> set (walk P header below ?nxt)" .
    then show ?thesis
      using in_range
      by (cases "fst (walk_step P header below idx)") (simp_all add: walk_silent walk_emit)
  qed
qed

text \<open>
  One pass of the walk, as the code runs it. At a column of the header that the
  classifier gives a month other than \<open>total\<close>, the pass records the month with its
  column, and the next pass starts two columns on exactly when \<open>nextIsAux\<close> holds, that
  is when the following header cell is empty or absent and the Number that the locale
  number parser returns for the trimmed cell under it has an absolute value of at most
  5; otherwise the next pass starts at the very next column. A column passed over is not
  emitted. Where the classifier has no key for the empty cell, every month column of
  the header is recorded by the walk from the first classified column.
\<close>

theorem month_walk_spec:
  "(idx < length header \<and> monthKey P (header ! idx) = Some k \<and> k \<noteq> ustr ''total'' \<longrightarrow>
      (let aux = (text_of (cell_at header (idx + 1)) = []
                  \<and> js_le (js_abs (parsePtNumber (Some (trim (text_of (cell_at below (idx + 1)))))))
                       (Num 5));
           nxt = (if aux then idx + 2 else idx + 1)
       in walk_step P header below idx = (Some \<lparr> mes = k, col = idx, raw = header ! idx \<rparr>, nxt)
          \<and> walk P header below idx =
              \<lparr> mes = k, col = idx, raw = header ! idx \<rparr> # walk P header below nxt
          \<and> (\<forall>m \<in> set (walk P header below nxt). nxt \<le> col m)))
   \<and> (monthKey P [] = None \<and> idx < length header \<and> monthKey P (header ! idx) = Some k
        \<and> k \<noteq> ustr ''total''
      \<longrightarrow> \<lparr> mes = k, col = idx, raw = header ! idx \<rparr>
            \<in> set (walk P header below (start_col P header)))"
proof (intro conjI impI)
  assume a: "idx < length header \<and> monthKey P (header ! idx) = Some k \<and> k \<noteq> ustr ''total''"
  have not_nan: "\<not> isNaN (parsePtNumber x)" for x
    by (simp add: isNaN_def parsePtNumber_not_NaN)
  have step: "walk_step P header below idx =
      (Some \<lparr> mes = k, col = idx, raw = header ! idx \<rparr>,
       if next_is_aux header below idx then idx + 2 else idx + 1)"
    using a by (simp add: walk_step_month)
  have aux: "next_is_aux header below idx \<longleftrightarrow>
      (text_of (cell_at header (idx + 1)) = []
       \<and> js_le (js_abs (parsePtNumber (Some (trim (text_of (cell_at below (idx + 1)))))))
            (Num 5))"
    by (simp add: next_is_aux_def Let_def not_nan)
  show "let aux = (text_of (cell_at header (idx + 1)) = []
                  \<and> js_le (js_abs (parsePtNumber (Some (trim (text_of (cell_at below (idx + 1)))))))
                       (Num 5));
           nxt = (if aux then idx + 2 else idx + 1)
       in walk_step P header below idx = (Some \<lparr> mes = k, col = idx, raw = header ! idx \<rparr>, nxt)
          \<and> walk P header below idx =
              \<lparr> mes = k, col = idx, raw = header ! idx \<rparr> # walk P header below nxt
          \<and> (\<forall>m \<in> set (walk P header below nxt). nxt \<le> col m)"
    unfolding Let_def aux [symmetric]
    using a step walk_emit [of idx header P below] walk_invariant [of P header below]
    by simp
next
  assume "monthKey P [] = None \<and> idx < length header \<and> monthKey P (header ! idx) = Some k
        \<and> k \<noteq> ustr ''total''"
  then show "\<lparr> mes = k, col = idx, raw = header ! idx \<rparr>
            \<in> set (walk P header below (start_col P header))"
    by (intro walk_records start_col_le) simp_all
qed

text \<open>
  Claim C8. For every grid and header row, no entry of the month-column list has the key
  \<open>total\<close>, and the column indices of its entries increase strictly along the list; the
  published month list has no \<open>total\<close> either.
\<close>

theorem month_columns_invariant:
  "ustr ''total'' \<notin> set (map mes (month_columns P data headerIdx))
   \<and> sorted_wrt (\<lambda>a b. col a < col b) (month_columns P data headerIdx)
   \<and> ustr ''total'' \<notin> set (snd (build_snapshot P data))"
proof -
  have no_total: "ustr ''total'' \<notin> set (map mes (month_columns P data h))" for h
    using walk_invariant [of P "row_or_empty (cell_at data h)"
        "row_or_empty (cell_at data (h + 1))"
        "start_col P (row_or_empty (cell_at data h))"]
    by (auto simp add: month_columns_def Let_def)
  have "sorted_wrt (\<lambda>a b. col a < col b) (month_columns P data headerIdx)"
    using walk_invariant [of P "row_or_empty (cell_at data headerIdx)"
        "row_or_empty (cell_at data (headerIdx + 1))"
        "start_col P (row_or_empty (cell_at data headerIdx))"]
    by (simp add: month_columns_def Let_def)
  moreover have "ustr ''total'' \<notin> set (snd (build_snapshot P data))"
    using no_total [of "fst (locate_header P data)"]
    by (cases "locate_header P data") (simp add: build_snapshot_def Let_def)
  ultimately show ?thesis
    using no_total [of headerIdx] by simp
qed

lemma parsePtNumber_staged:
  assumes "trim r = s" and "s \<noteq> []" and "\<not> is_lone_dash s" and "number_text s = (neg, t)"
    and "parseFloat t = v" and "v \<noteq> NaN"
  shows "parsePtNumber (Some r) = (if neg then js_neg v else v)"
  using assms by (simp add: parsePtNumber_def isNaN_def)

lemmas text_defs = number_text_def remove_ws_def paren_wrapped_def ends_with_minus_def
  numeric_char_def

lemmas float_defs = parseFloat_def unsigned_literal_def digits_value_def exponent_part_def

lemmas double_defs = to_double_def binade_def bit_length_0 bit_length_pos pow2_def

lemma parse_ratio_1: "parsePtNumber (Some (ustr ''1,0'')) = Num 1"
proof -
  have "trim (ustr ''1,0'') = ustr ''1,0''" "ustr ''1,0'' \<noteq> []" "\<not> is_lone_dash (ustr ''1,0'')"
    by (simp_all add: char_defs trim_def is_lone_dash_def)
  moreover have "number_text (ustr ''1,0'') = (False, ustr ''1.0'')"
    by (simp add: char_defs text_defs)
  moreover have "parseFloat (ustr ''1.0'') = to_double 10 10"
    by (simp add: char_defs float_defs)
  moreover have "to_double 10 10 = Num 1"
    by (simp add: double_defs)
  ultimately show ?thesis
    using parsePtNumber_staged [of "ustr ''1,0''" "ustr ''1,0''" False "ustr ''1.0''" "Num 1"]
    by simp
qed

lemma parse_ratio_half: "parsePtNumber (Some (ustr ''0,5'')) = Num (1 / 2)"
proof -
  have "trim (ustr ''0,5'') = ustr ''0,5''" "ustr ''0,5'' \<noteq> []" "\<not> is_lone_dash (ustr ''0,5'')"
    by (simp_all add: char_defs trim_def is_lone_dash_def)
  moreover have "number_text (ustr ''0,5'') = (False, ustr ''0.5'')"
    by (simp add: char_defs text_defs)
  moreover have "parseFloat (ustr ''0.5'') = to_double 5 10"
    by (simp add: char_defs float_defs)
  moreover have "to_double 5 10 = Num (1 / 2)"
    by (simp add: double_defs)
  ultimately show ?thesis
    using parsePtNumber_staged [of "ustr ''0,5''" "ustr ''0,5''" False "ustr ''0.5''" "Num (1 / 2)"]
    by simp
qed

lemma sample_aux:
  "next_is_aux sample_header sample_receita 2"
  "next_is_aux sample_header sample_receita 4"
  "\<not> next_is_aux sample_header sample_receita 6"
proof -
  have "trim (ustr ''1,0'') = ustr ''1,0''" "trim (ustr ''0,5'') = ustr ''0,5''"
    by (simp_all add: char_defs trim_def)
  then show "next_is_aux sample_header sample_receita 2"
    "next_is_aux sample_header sample_receita 4"
    by (simp_all add: next_is_aux_def sample_header_def sample_receita_def cell_at_def
        text_of_def parse_ratio_1 parse_ratio_half isNaN_def)
  show "\<not> next_is_aux sample_header sample_receita 6"
    by (simp add: next_is_aux_def sample_header_def cell_at_def text_of_def ustr_def)
qed

lemma sample_steps:
  "walk_step latin1_platform sample_header sample_receita 2 = (Some (sample_months ! 0), 4)"
  "walk_step latin1_platform sample_header sample_receita 4 = (Some (sample_months ! 1), 6)"
  "walk_step latin1_platform sample_header sample_receita 6 = (Some (sample_months ! 2), 7)"
  "walk_step latin1_platform sample_header sample_receita 7 = (None, 8)"
proof -
  have keys: "monthKey latin1_platform (sample_header ! 2) = Some (ustr ''jan'')"
    "monthKey latin1_platform (sample_header ! 4) = Some (ustr ''fev'')"
    "monthKey latin1_platform (sample_header ! 6) = Some (ustr ''mar'')"
    "monthKey latin1_platform (sample_header ! 7) = Some (ustr ''total'')"
    by (simp_all add: sample_header_def sample_header_keys)
  have cells: "sample_header ! 2 = ustr ''Jan/25''" "sample_header ! 4 = ustr ''Fev/25''"
    "sample_header ! 6 = ustr ''Mar/25''"
    by (simp_all add: sample_header_def)
  have distinct: "ustr ''jan'' \<noteq> ustr ''total''" "ustr ''fev'' \<noteq> ustr ''total''"
    "ustr ''mar'' \<noteq> ustr ''total''"
    by (simp_all add: ustr_def)
  show "walk_step latin1_platform sample_header sample_receita 2 = (Some (sample_months ! 0), 4)"
    using walk_step_month [OF keys(1) distinct(1), of sample_receita] sample_aux(1)
    by (simp add: cells sample_months_def)
  show "walk_step latin1_platform sample_header sample_receita 4 = (Some (sample_months ! 1), 6)"
    using walk_step_month [OF keys(2) distinct(2), of sample_receita] sample_aux(2)
    by (simp add: cells sample_months_def)
  show "walk_step latin1_platform sample_header sample_receita 6 = (Some (sample_months ! 2), 7)"
    using walk_step_month [OF keys(3) distinct(3), of sample_receita] sample_aux(3)
    by (simp add: cells sample_months_def)
  show "walk_step latin1_platform sample_header sample_receita 7 = (None, 8)"
    by (simp add: walk_step_def keys(4))
qed

lemma sample_walk: "walk latin1_platform sample_header sample_receita 2 = sample_months"
proof -
  have len: "length sample_header = 8"
    by (simp add: sample_header_def)
  have "walk latin1_platform sample_header sample_receita 8 = []"
    by (simp add: walk_done len)
  then have "walk latin1_platform sample_header sample_receita 7 = []"
    by (simp add: walk_silent len sample_steps)
  then have "walk latin1_platform sample_header sample_receita 6 = [sample_months ! 2]"
    by (simp add: walk_emit [of _ _ _ _ "sample_months ! 2"] len sample_steps)
  then have "walk latin1_platform sample_header sample_receita 4
      = [sample_months ! 1, sample_months ! 2]"
    by (simp add: walk_emit [of _ _ _ _ "sample_months ! 1"] len sample_steps)
  then have "walk latin1_platform sample_header sample_receita 2
      = [sample_months ! 0, sample_months ! 1, sample_months ! 2]"
    by (simp add: walk_emit [of _ _ _ _ "sample_months ! 0"] len sample_steps)
  then show ?thesis
    by (simp add: sample_months_def)
qed

lemma sample_start: "start_col latin1_platform sample_header = 2"
  by (simp add: start_col_def sample_header_def sample_header_keys)

lemma sample_month_columns: "month_columns latin1_platform sample_grid 0 = sample_months"
  by (simp add: month_columns_def sample_rows_of_grid sample_start sample_walk)

theorem month_walk_spec_witness:
  "2 < length sample_header
   \<and> monthKey latin1_platform (sample_header ! 2) = Some (ustr ''jan'')
   \<and> ustr ''jan'' \<noteq> ustr ''total''
   \<and> monthKey latin1_platform [] = None
   \<and> walk_step latin1_platform sample_header sample_receita 2
       = (Some \<lparr> mes = ustr ''jan'', col = 2, raw = sample_header ! 2 \<rparr>, 4)
   \<and> \<lparr> mes = ustr ''jan'', col = 2, raw = sample_header ! 2 \<rparr>
       \<in> set (walk latin1_platform sample_header sample_receita
                (start_col latin1_platform sample_header))"
proof -
  have hyp: "2 < length sample_header
      \<and> monthKey latin1_platform (sample_header ! 2) = Some (ustr ''jan'')
      \<and> ustr ''jan'' \<noteq> ustr ''total''"
    by (simp add: sample_header_def sample_header_keys) (simp add: ustr_def)
  have sane: "monthKey latin1_platform [] = None"
    by (rule sample_header_keys)
  have aux: "text_of (cell_at sample_header (2 + 1)) = []
      \<and> js_le (js_abs (parsePtNumber
            (Some (trim (text_of (cell_at sample_receita (2 + 1))))))) (Num 5)"
    using sample_aux(1) by (simp add: next_is_aux_def Let_def)
  from month_walk_spec [of 2 sample_header latin1_platform "ustr ''jan''" sample_receita]
  have "walk_step latin1_platform sample_header sample_receita 2
       = (Some \<lparr> mes = ustr ''jan'', col = 2, raw = sample_header ! 2 \<rparr>, 4)"
    and "\<lparr> mes = ustr ''jan'', col = 2, raw = sample_header ! 2 \<rparr>
       \<in> set (walk latin1_platform sample_header sample_receita
                (start_col latin1_platform sample_header))"
    using hyp sane aux by (simp_all add: Let_def)
  with hyp sane show ?thesis
    by simp
qed

theorem month_columns_invariant_witness:
  "ustr ''total'' \<notin> set (map mes sample_months)
   \<and> sorted_wrt (\<lambda>a b. col a < col b) sample_months
   \<and> ustr ''total'' \<notin> set (snd (build_snapshot latin1_platform sample_grid))"
  using month_columns_invariant [of latin1_platform sample_grid 0]
  by (simp add: sample_month_columns)



section \<open>Properties of the account row extractor\<close>

lemma extract_rows_done:
  "\<not> r < length data \<Longrightarrow> extract_rows P data titleCol monthCols r = []"
  by (subst extract_rows.simps) simp

lemma extract_rows_step:
  "r < length data \<Longrightarrow>
   extract_rows P data titleCol monthCols r =
     (case row_entry P titleCol monthCols (data ! r) of
        None \<Rightarrow> extract_rows P data titleCol monthCols (Suc r)
      | Some a \<Rightarrow> a # extract_rows P data titleCol monthCols (Suc r))"
  by (subst extract_rows.simps) (simp add: cell_at_def row_or_empty_def)

lemma extract_rows_map_filter:
  "extract_rows P data titleCol monthCols r =
     List.map_filter (row_entry P titleCol monthCols) (drop r data)"
proof (induction "length data - r" arbitrary: r rule: less_induct)
  case less
  show ?case
  proof (cases "r < length data")
    case False
    then show ?thesis by (simp add: extract_rows_done map_filter_simps)
  next
    case True
    then have "length data - Suc r < length data - r" by simp
    from less [OF this] have IH: "extract_rows P data titleCol monthCols (Suc r) =
        List.map_filter (row_entry P titleCol monthCols) (drop (Suc r) data)" .
    from True have "drop r data = data ! r # drop (Suc r) data"
      by (simp add: Cons_nth_drop_Suc)
    with IH True show ?thesis
      by (simp add: extract_rows_step map_filter_simps split: option.split)
  qed
qed

lemma row_entry_Some_iff:
  "row_entry P titleCol monthCols row \<noteq> None \<longleftrightarrow>
     trim (text_of (cell_at row titleCol)) \<noteq> []
     \<and> (\<exists>m \<in> set monthCols. trim (text_of (cell_at row (col m))) \<noteq> [])"
  by (simp add: row_entry_def Let_def hasAnyVal_def list_ex_iff)

lemma row_entry_name:
  "row_entry P titleCol monthCols row = Some a \<Longrightarrow> name a = trim (text_of (cell_at row titleCol))"
  by (auto simp add: row_entry_def Let_def split: if_splits)

text \<open>
  Claim C6. The extractor goes through the rows strictly below the header row in their
  order and emits, for each, an account row exactly when the trimmed title cell is not
  empty and at least one of the row's month-column cells is not empty after trimming;
  so a row with a title and only blank month cells is left out, and the emitted rows
  stand in the order of the source rows, each under its trimmed title.
\<close>

theorem account_rows_spec:
  "extract_rows P data titleCol monthCols (headerIdx + 1) =
     List.map_filter (row_entry P titleCol monthCols) (drop (headerIdx + 1) data)
   \<and> fst (build_snapshot P data) =
       List.map_filter
         (row_entry P (snd (locate_header P data))
            (month_columns P data (fst (locate_header P data))))
         (drop (fst (locate_header P data) + 1) data)
   \<and> (\<forall>row. row_entry P titleCol monthCols row \<noteq> None \<longleftrightarrow>
          trim (text_of (cell_at row titleCol)) \<noteq> []
          \<and> (\<exists>m \<in> set monthCols. trim (text_of (cell_at row (col m))) \<noteq> []))
   \<and> (\<forall>row a. row_entry P titleCol monthCols row = Some a \<longrightarrow>
          name a = trim (text_of (cell_at row titleCol)))
   \<and> (\<forall>row. trim (text_of (cell_at row titleCol)) \<noteq> []
          \<and> (\<forall>m \<in> set monthCols. trim (text_of (cell_at row (col m))) = [])
        \<longrightarrow> row_entry P titleCol monthCols row = None)"
proof (intro conjI allI impI)
  show "extract_rows P data titleCol monthCols (headerIdx + 1) =
     List.map_filter (row_entry P titleCol monthCols) (drop (headerIdx + 1) data)"
    by (rule extract_rows_map_filter)
  show "fst (build_snapshot P data) =
       List.map_filter
         (row_entry P (snd (locate_header P data))
            (month_columns P data (fst (locate_header P data))))
         (drop (fst (locate_header P data) + 1) data)"
    by (cases "locate_header P data")
      (simp add: build_snapshot_def Let_def extract_rows_map_filter)
next
  fix row
  show "row_entry P titleCol monthCols row \<noteq> None \<longleftrightarrow>
          trim (text_of (cell_at row titleCol)) \<noteq> []
          \<and> (\<exists>m \<in> set monthCols. trim (text_of (cell_at row (col m))) \<noteq> [])"
    by (rule row_entry_Some_iff)
next
  fix row a
  assume "row_entry P titleCol monthCols row = Some a"
  then show "name a = trim (text_of (cell_at row titleCol))"
    by (rule row_entry_name)
next
  fix row
  assume "trim (text_of (cell_at row titleCol)) \<noteq> []
          \<and> (\<forall>m \<in> set monthCols. trim (text_of (cell_at row (col m))) = [])"
  then show "row_entry P titleCol monthCols row = None"
    using row_entry_Some_iff [of P titleCol monthCols row] by blast
qed

theorem account_rows_spec_witness:
  "trim (text_of (cell_at sample_despesas 1)) \<noteq> []
   \<and> list_all (\<lambda>m. trim (text_of (cell_at sample_despesas (col m))) = []) sample_months
   \<and> row_entry latin1_platform 1 sample_months sample_despesas = None"
proof -
  have title: "trim (text_of (cell_at sample_despesas 1)) \<noteq> []"
    by (simp add: sample_despesas_def cell_at_def text_of_def trim_def char_defs)
  have blank: "list_all (\<lambda>m. trim (text_of (cell_at sample_despesas (col m))) = []) sample_months"
    by (simp add: sample_despesas_def sample_months_def cell_at_def text_of_def trim_def)
  then have "\<forall>m \<in> set sample_months. trim (text_of (cell_at sample_despesas (col m))) = []"
    by (simp add: list_all_iff)
  with title account_rows_spec [of latin1_platform sample_grid 1 sample_months 0]
  have "row_entry latin1_platform 1 sample_months sample_despesas = None"
    by blast
  with title blank show ?thesis
    by simp
qed

section \<open>Properties of the effect of the hook\<close>

text \<open>
  Claim C7. When the request or the table reader throws, the setters are called with
  the empty row list, the empty month list and \<open>false\<close>: whatever was published before,
  the state after these calls is the empty snapshot with loading cleared, and on the
  way from the initial state every published state has no rows and no months. Nothing
  of a grid is published, since the setters of the \<open>try\<close> block come after everything
  that can throw.
\<close>

theorem failed_fetch_spec:
  "effect_calls P (Inl e) = [SetRows [], SetMonths [], SetLoading False]
   \<and> final_snapshot s (effect_calls P (Inl e)) = \<lparr> rows = [], months = [], loading = False \<rparr>
   \<and> published initial_snapshot (effect_calls P (Inl e)) =
       [initial_snapshot, initial_snapshot, \<lparr> rows = [], months = [], loading = False \<rparr>]"
  by (cases s) (simp add: effect_calls_def final_snapshot_def initial_snapshot_def)

theorem failed_fetch_spec_witness:
  "final_snapshot initial_snapshot (effect_calls latin1_platform (Inl FetchError))
     = \<lparr> rows = [], months = [], loading = False \<rparr>"
  using failed_fetch_spec [of latin1_platform FetchError initial_snapshot] by blast

section \<open>Properties of the alias resolver\<close>

lemmas norm_defs = normalize_str_def is_combining_mark_def trim_def
  latin1_nfd_def latin1_decompositions_def latin1_lower_char_def latin1_platform_def

subsection \<open>Alias resolver\<close>

lemma resolve_variant_via_row:
  "resolve_variant m k = map_option snd (resolve_variant_via m k)"
  by (simp add: resolve_variant_def resolve_variant_via_def split: option.split prod.split)

lemma resolve_variants_via_row:
  "resolve_variants P m opts = map_option (snd \<circ> snd) (resolve_variants_via P m opts)"
  by (induction opts) (auto simp add: resolve_variant_via_row split: option.split)

lemma findRow_via_row:
  "findRow P m aliasKey = map_sum id (map_option (snd \<circ> snd)) (findRow_via P m aliasKey)"
  by (simp add: findRow_def findRow_via_def resolve_variants_via_row split: property.split)

lemma keyNorm_receita_liquida:
  "keyNorm latin1_platform receita_liquida_title = ustr ''receita_liquida_''"
  by (simp add: keyNorm_def variant_key_def norm_defs char_defs is_key_punct_def
      receita_liquida_title_def)

lemma receita_liquida_variants:
  "get_property aliases (ustr ''receita_liquida'') =
     Own [ustr ''receita liquida'', ustr ''receita liquida ='', ustr ''receita liquida (=)'']"
  by (simp add: get_property_def aliases_def ustr_def)

lemma variant_key_receita_liquida:
  "variant_key latin1_platform (ustr ''receita liquida'') = ustr ''receita_liquida''"
  by (simp add: variant_key_def norm_defs char_defs is_key_punct_def)

lemma receita_liquida_substring:
  "str_includes (ustr ''receita_liquida_'') (ustr ''receita_liquida'')"
  by (simp add: ustr_def)

lemma findRow_via_receita_liquida:
  fixes vs :: "(jsstring \<times> jsnum) list"
  defines "row \<equiv> \<lparr> name = receita_liquida_title,
                     key = keyNorm latin1_platform receita_liquida_title, values = vs \<rparr>"
  shows "findRow_via latin1_platform (build_index [row]) (ustr ''receita_liquida'') =
           Inr (Some (ustr ''receita liquida'', SubstringMatch, row))"
proof -
  have idx: "build_index [row] = [(ustr ''receita_liquida_'', row)]"
    by (simp add: build_index_def row_def keyNorm_receita_liquida)
  have miss: "map_of (build_index [row]) (ustr ''receita_liquida'') = None"
    by (simp add: idx ustr_def)
  show ?thesis
    using receita_liquida_substring miss
    by (simp add: findRow_via_def receita_liquida_variants variant_key_receita_liquida
        resolve_variant_via_def idx)
qed

lemma keyNorm_no_punctuation: "list_all (\<lambda>c. \<not> is_key_punct c) (keyNorm P t)"
proof -
  have "set (keyNorm P t) \<subseteq> set (variant_key P t)"
    by (simp add: keyNorm_def set_take_subset)
  then show ?thesis
    by (auto simp add: list_all_iff variant_key_def)
qed

lemma sample_index:
  "build_index sample_rows =
     [(ustr ''receita_liquida_'', sample_rows ! 0), (ustr ''ebitda'', sample_rows ! 1)]"
  by (simp add: build_index_def sample_rows_def ustr_def)

lemma findRow_via_sample:
  "findRow_via latin1_platform (build_index sample_rows) (ustr ''receita_liquida'') =
     Inr (Some (ustr ''receita liquida'', SubstringMatch, sample_rows ! 0))"
proof -
  have miss: "map_of (build_index sample_rows) (ustr ''receita_liquida'') = None"
    by (simp add: sample_index ustr_def)
  show ?thesis
    using receita_liquida_substring miss
    by (simp add: findRow_via_def receita_liquida_variants variant_key_receita_liquida
        resolve_variant_via_def sample_index)
qed

section \<open>The sample sheet through the whole extraction\<close>

lemma parse_2000_50: "parsePtNumber (Some (ustr ''2.000,50'')) = Num (4001 / 2)"
proof -
  have "trim (ustr ''2.000,50'') = ustr ''2.000,50''" "ustr ''2.000,50'' \<noteq> []"
    "\<not> is_lone_dash (ustr ''2.000,50'')"
    by (simp_all add: char_defs trim_def is_lone_dash_def)
  moreover have "number_text (ustr ''2.000,50'') = (False, ustr ''2000.50'')"
    by (simp add: char_defs text_defs)
  moreover have "parseFloat (ustr ''2000.50'') = to_double 200050 100"
    by (simp add: char_defs float_defs)
  moreover have "to_double 200050 100 = Num (4001 / 2)"
    by (simp add: double_defs)
  ultimately show ?thesis
    using parsePtNumber_staged
      [of "ustr ''2.000,50''" "ustr ''2.000,50''" False "ustr ''2000.50''" "Num (4001 / 2)"]
    by simp
qed

lemma parse_300_negative: "parsePtNumber (Some (ustr ''(300,00)'')) = Num (- 300)"
proof -
  have "trim (ustr ''(300,00)'') = ustr ''(300,00)''" "ustr ''(300,00)'' \<noteq> []"
    "\<not> is_lone_dash (ustr ''(300,00)'')"
    by (simp_all add: char_defs trim_def is_lone_dash_def)
  moreover have "number_text (ustr ''(300,00)'') = (True, ustr ''300.00'')"
    by (simp add: char_defs text_defs)
  moreover have "parseFloat (ustr ''300.00'') = to_double 30000 100"
    by (simp add: char_defs float_defs)
  moreover have "to_double 30000 100 = Num 300"
    by (simp add: double_defs)
  ultimately show ?thesis
    using parsePtNumber_staged
      [of "ustr ''(300,00)''" "ustr ''(300,00)''" True "ustr ''300.00''" "Num 300"]
    by simp
qed

lemma parse_integers:
  "parsePtNumber (Some (ustr ''10'')) = Num 10"
  "parsePtNumber (Some (ustr ''20'')) = Num 20"
  "parsePtNumber (Some (ustr ''30'')) = Num 30"
proof -
  have d: "to_double 10 (Suc 0) = Num 10" "to_double 20 (Suc 0) = Num 20"
    "to_double 30 (Suc 0) = Num 30"
    by (simp_all add: double_defs)
  have f: "parseFloat (ustr ''10'') = to_double 10 1" "parseFloat (ustr ''20'') = to_double 20 1"
    "parseFloat (ustr ''30'') = to_double 30 1"
    by (simp_all add: char_defs float_defs)
  have n: "number_text (ustr ''10'') = (False, ustr ''10'')"
    "number_text (ustr ''20'') = (False, ustr ''20'')"
    "number_text (ustr ''30'') = (False, ustr ''30'')"
    by (simp_all add: char_defs text_defs)
  have t: "trim (ustr ''10'') = ustr ''10''" "trim (ustr ''20'') = ustr ''20''"
    "trim (ustr ''30'') = ustr ''30''"
    by (simp_all add: char_defs trim_def)
  have e: "ustr ''10'' \<noteq> []" "\<not> is_lone_dash (ustr ''10'')"
    "ustr ''20'' \<noteq> []" "\<not> is_lone_dash (ustr ''20'')"
    "ustr ''30'' \<noteq> []" "\<not> is_lone_dash (ustr ''30'')"
    by (simp_all add: ustr_def is_lone_dash_def)
  show "parsePtNumber (Some (ustr ''10'')) = Num 10"
    using parsePtNumber_staged [OF t(1) e(1,2) n(1) f(1)] by (simp add: d)
  show "parsePtNumber (Some (ustr ''20'')) = Num 20"
    using parsePtNumber_staged [OF t(2) e(3,4) n(2) f(2)] by (simp add: d)
  show "parsePtNumber (Some (ustr ''30'')) = Num 30"
    using parsePtNumber_staged [OF t(3) e(5,6) n(3) f(3)] by (simp add: d)
qed

lemma sample_locate: "locate_header latin1_platform sample_grid = (0, 1)"
  using locate_from_hit [of 0 sample_grid latin1_platform]
  by (simp add: locate_header_def sample_rows_of_grid sample_hits sample_header_length)

lemma sample_cells:
  "cell_at sample_receita 2 = Some (ustr ''1.234,56'')"
  "cell_at sample_receita 4 = Some (ustr ''2.000,50'')"
  "cell_at sample_receita 6 = Some (ustr ''(300,00)'')"
  "cell_at sample_ebitda 2 = Some (ustr ''10'')"
  "cell_at sample_ebitda 4 = Some (ustr ''20'')"
  "cell_at sample_ebitda 6 = Some (ustr ''30'')"
  by (simp_all add: cell_at_def sample_receita_def sample_ebitda_def)

lemma sample_values:
  "row_values sample_months sample_receita = values (sample_rows ! 0)"
  "row_values sample_months sample_ebitda = values (sample_rows ! 1)"
proof -
  have distinct: "ustr ''jan'' \<noteq> ustr ''fev''" "ustr ''jan'' \<noteq> ustr ''mar''"
    "ustr ''fev'' \<noteq> ustr ''mar''"
    by (simp_all add: ustr_def)
  show "row_values sample_months sample_receita = values (sample_rows ! 0)"
    using distinct
    by (simp add: row_values_def sample_months_def sample_cells parsePtNumber_plain
        to_double_1234_56 parse_2000_50 parse_300_negative isNaN_def sample_rows_def)
  show "row_values sample_months sample_ebitda = values (sample_rows ! 1)"
    using distinct
    by (simp add: row_values_def sample_months_def sample_cells parse_integers isNaN_def
        sample_rows_def)
qed

lemma sample_titles:
  "trim (text_of (cell_at sample_receita (Suc 0))) = receita_liquida_title"
  "trim (text_of (cell_at sample_despesas (Suc 0))) = ustr ''Despesas''"
  "trim (text_of (cell_at sample_ebitda (Suc 0))) = ustr ''EBITDA''"
  by (simp_all add: cell_at_def text_of_def sample_receita_def sample_despesas_def
      sample_ebitda_def receita_liquida_title_def trim_def char_defs)

lemma sample_has_values:
  "hasAnyVal sample_months sample_receita" "\<not> hasAnyVal sample_months sample_despesas"
  "hasAnyVal sample_months sample_ebitda"
  by (simp_all add: hasAnyVal_def sample_months_def sample_cells text_of_def trim_def char_defs)
    (simp add: cell_at_def sample_despesas_def)

lemma keyNorm_ebitda: "keyNorm latin1_platform (ustr ''EBITDA'') = ustr ''ebitda''"
  by (simp add: keyNorm_def variant_key_def norm_defs char_defs is_key_punct_def)

lemma sample_entries:
  "row_entry latin1_platform 1 sample_months sample_receita = Some (sample_rows ! 0)"
  "row_entry latin1_platform 1 sample_months sample_despesas = None"
  "row_entry latin1_platform 1 sample_months sample_ebitda = Some (sample_rows ! 1)"
proof -
  have "receita_liquida_title \<noteq> []" "ustr ''Despesas'' \<noteq> []" "ustr ''EBITDA'' \<noteq> []"
    by (simp_all add: receita_liquida_title_def ustr_def)
  then show "row_entry latin1_platform 1 sample_months sample_receita = Some (sample_rows ! 0)"
    "row_entry latin1_platform 1 sample_months sample_despesas = None"
    "row_entry latin1_platform 1 sample_months sample_ebitda = Some (sample_rows ! 1)"
    by (simp_all add: row_entry_def sample_titles sample_has_values sample_values
        keyNorm_receita_liquida keyNorm_ebitda)
      (simp_all add: sample_rows_def)
qed

lemma sample_snapshot:
  "build_snapshot latin1_platform sample_grid
     = (sample_rows, [ustr ''jan'', ustr ''fev'', ustr ''mar''])"
proof -
  have "drop (Suc 0) sample_grid = [sample_receita, sample_despesas, sample_ebitda]"
    by (simp add: sample_grid_def)
  then have "extract_rows latin1_platform sample_grid 1 sample_months (Suc 0)
      = [sample_rows ! 0, sample_rows ! 1]"
    by (simp add: extract_rows_map_filter map_filter_simps sample_entries del: One_nat_def)
  moreover have "[sample_rows ! 0, sample_rows ! 1] = sample_rows"
    by (simp add: sample_rows_def)
  ultimately show ?thesis
    by (simp add: build_snapshot_def sample_locate sample_month_columns sample_months_def)
qed

text \<open>
  Claim C3, as the code has it. The key derived from the title \<open>Receita L\<close>\<open>U+00ED\<close>\<open>quida (=)\<close>
  is \<open>receita_liquida_\<close>: ASCII only, so without accent, and without parenthesis or
  equals sign (no key of any title has one); the underscore that stood for the space
  before \<open>(=)\<close> stays at its end. So the first variant of the semantic key
  \<open>receita_liquida\<close>, which normalizes to \<open>receita_liquida\<close>, is not a key of the index,
  and the resolver returns the row through the substring scan of that first variant,
  before the variants that normalize to \<open>receita_liquida_\<close> are tried. This holds for the
  index of that row alone, whatever its values, and for the index of the rows extracted
  from the sample sheet, whose first row comes from that title.
\<close>

theorem receita_liquida_resolution:
  "keyNorm latin1_platform receita_liquida_title = ustr ''receita_liquida_''
   \<and> list_all (\<lambda>c. c < 0x80 \<and> \<not> is_combining_mark c \<and> c \<noteq> 0x28 \<and> c \<noteq> 0x29 \<and> c \<noteq> 0x3D)
        (keyNorm latin1_platform receita_liquida_title)
   \<and> list_all (\<lambda>c. \<not> is_key_punct c) (keyNorm P t)
   \<and> (let row = \<lparr> name = receita_liquida_title,
                    key = keyNorm latin1_platform receita_liquida_title, values = vs \<rparr>;
           m = build_index [row]
       in map_of m (variant_key latin1_platform (ustr ''receita liquida'')) = None
          \<and> findRow_via latin1_platform m (ustr ''receita_liquida'')
              = Inr (Some (ustr ''receita liquida'', SubstringMatch, row))
          \<and> findRow latin1_platform m (ustr ''receita_liquida'') = Inr (Some row))
   \<and> fst (build_snapshot latin1_platform sample_grid) = sample_rows
   \<and> name (sample_rows ! 0) = receita_liquida_title
   \<and> findRow_via latin1_platform (build_index sample_rows) (ustr ''receita_liquida'')
       = Inr (Some (ustr ''receita liquida'', SubstringMatch, sample_rows ! 0))
   \<and> findRow P idx aliasKey = map_sum id (map_option (snd \<circ> snd)) (findRow_via P idx aliasKey)"
proof (intro conjI)
  show "keyNorm latin1_platform receita_liquida_title = ustr ''receita_liquida_''"
    by (rule keyNorm_receita_liquida)
  show "list_all (\<lambda>c. c < 0x80 \<and> \<not> is_combining_mark c \<and> c \<noteq> 0x28 \<and> c \<noteq> 0x29 \<and> c \<noteq> 0x3D)
        (keyNorm latin1_platform receita_liquida_title)"
    by (simp add: keyNorm_receita_liquida ustr_def is_combining_mark_def)
  show "list_all (\<lambda>c. \<not> is_key_punct c) (keyNorm P t)"
    by (rule keyNorm_no_punctuation)
  show "let row = \<lparr> name = receita_liquida_title,
                    key = keyNorm latin1_platform receita_liquida_title, values = vs \<rparr>;
           m = build_index [row]
       in map_of m (variant_key latin1_platform (ustr ''receita liquida'')) = None
          \<and> findRow_via latin1_platform m (ustr ''receita_liquida'')
              = Inr (Some (ustr ''receita liquida'', SubstringMatch, row))
          \<and> findRow latin1_platform m (ustr ''receita_liquida'') = Inr (Some row)"
    using findRow_via_receita_liquida [of vs]
    by (simp add: Let_def findRow_via_row variant_key_receita_liquida build_index_def
        keyNorm_receita_liquida) (simp add: ustr_def)
  show "fst (build_snapshot latin1_platform sample_grid) = sample_rows"
    by (simp add: sample_snapshot)
  show "name (sample_rows ! 0) = receita_liquida_title"
    by (simp add: sample_rows_def)
  show "findRow_via latin1_platform (build_index sample_rows) (ustr ''receita_liquida'')
       = Inr (Some (ustr ''receita liquida'', SubstringMatch, sample_rows ! 0))"
    by (rule findRow_via_sample)
  show "findRow P idx aliasKey = map_sum id (map_option (snd \<circ> snd)) (findRow_via P idx aliasKey)"
    by (rule findRow_via_row)
qed

theorem receita_liquida_resolution_witness:
  "findRow latin1_platform
     (build_index [\<lparr> name = receita_liquida_title,
                      key = keyNorm latin1_platform receita_liquida_title, values = [] \<rparr>])
     (ustr ''receita_liquida'')
   = Inr (Some \<lparr> name = receita_liquida_title,
                  key = keyNorm latin1_platform receita_liquida_title, values = [] \<rparr>)"
  using receita_liquida_resolution [of latin1_platform "[]" "[]" "[]" "[]", unfolded Let_def]
  by blast

text \<open>
  The claim as the specification words it fails: for the rows extracted from the sample
  sheet, the first of which comes from that title, the exact test of the first variant
  finds nothing and the answer comes from the substring scan.
\<close>

theorem receita_liquida_not_exact:
  "name (fst (build_snapshot latin1_platform sample_grid) ! 0) = receita_liquida_title
   \<and> map_of (build_index (fst (build_snapshot latin1_platform sample_grid)))
         (variant_key latin1_platform (ustr ''receita liquida'')) = None
   \<and> findRow_via latin1_platform
        (build_index (fst (build_snapshot latin1_platform sample_grid)))
        (ustr ''receita_liquida'')
      = Inr (Some (ustr ''receita liquida'', SubstringMatch,
                   fst (build_snapshot latin1_platform sample_grid) ! 0))"
proof -
  have "name (sample_rows ! 0) = receita_liquida_title"
    by (simp add: sample_rows_def)
  moreover have "map_of (build_index sample_rows) (ustr ''receita_liquida'') = None"
    by (simp add: sample_index ustr_def)
  ultimately show ?thesis
    using findRow_via_sample
    by (simp add: sample_snapshot variant_key_receita_liquida)
qed

section \<open>Properties of the value lookup\<close>

lemma valueAt_unknown_key:
  "map_of aliases k = None \<Longrightarrow> k \<notin> set OBJECT_PROTOTYPE_NAMES
   \<Longrightarrow> valueAt P rs k month = Inr (Num 0)"
  by (simp add: valueAt_def findRow_def get_property_def)

lemma valueAt_unresolved:
  "findRow P (build_index rs) k = Inr None \<Longrightarrow> valueAt P rs k month = Inr (Num 0)"
  by (simp add: valueAt_def)

lemma valueAt_resolved:
  "findRow P (build_index rs) k = Inr (Some row)
   \<Longrightarrow> toLowerCase P (text_of month) \<notin> set OBJECT_PROTOTYPE_NAMES
   \<Longrightarrow> valueAt P rs k month =
         Inr (case map_of (values row) (toLowerCase P (text_of month)) of
                None \<Rightarrow> Num 0 | Some v \<Rightarrow> v)"
  by (simp add: valueAt_def get_property_def Let_def split: option.split)

lemma valueAt_unmapped_example:
  "valueAt P rs (ustr ''receita_bruta_is_unmapped'') (Some (ustr ''jan'')) = Inr (Num 0)"
  by (rule valueAt_unknown_key) (simp_all add: aliases_def OBJECT_PROTOTYPE_NAMES_def ustr_def)

lemma constructor_inherited: "get_property aliases (ustr ''constructor'') = Inherited"
  by (simp add: get_property_def aliases_def OBJECT_PROTOTYPE_NAMES_def ustr_def)

lemma findRow_ebitda:
  "findRow latin1_platform (build_index sample_rows) (ustr ''ebitda'') = Inr (Some (sample_rows ! 1))"
proof -
  have "get_property aliases (ustr ''ebitda'') = Own [ustr ''ebitda'']"
    by (simp add: get_property_def aliases_def ustr_def)
  moreover have "variant_key latin1_platform (ustr ''ebitda'') = ustr ''ebitda''"
    by (simp add: variant_key_def norm_defs char_defs is_key_punct_def)
  moreover have "map_of (build_index sample_rows) (ustr ''ebitda'') = Some (sample_rows ! 1)"
    by (simp add: sample_index ustr_def)
  ultimately show ?thesis
    by (simp add: findRow_def resolve_variant_def)
qed

lemma ebitda_values:
  "values (sample_rows ! 1) =
     [(ustr ''jan'', Num 10), (ustr ''fev'', Num 20), (ustr ''mar'', Num 30)]"
  by (simp add: sample_rows_def)

lemma valueAt_ebitda_month:
  "valueAt latin1_platform sample_rows (ustr ''ebitda'') month =
     Inr (case get_property (values (sample_rows ! 1))
                 (toLowerCase latin1_platform (text_of month)) of
            Own v \<Rightarrow> v | Inherited \<Rightarrow> NaN | Undefined \<Rightarrow> Num 0)"
  by (simp add: valueAt_def findRow_ebitda)

lemma valueAt_ebitda:
  "valueAt latin1_platform sample_rows (ustr ''ebitda'') (Some (ustr ''MAR'')) = Inr (Num 30)"
  "valueAt latin1_platform sample_rows (ustr ''ebitda'') (Some (ustr ''mar'')) = Inr (Num 30)"
  "valueAt latin1_platform sample_rows (ustr ''ebitda'') (Some (ustr '' mar'')) = Inr (Num 0)"
  "valueAt latin1_platform sample_rows (ustr ''ebitda'') (Some (ustr ''m'' @ [0xE1] @ ustr ''r''))
     = Inr (Num 0)"
  "valueAt latin1_platform sample_rows (ustr ''ebitda'') (Some (ustr ''constructor'')) = Inr NaN"
  unfolding valueAt_ebitda_month ebitda_values
  by (simp_all add: get_property_def text_of_def latin1_platform_def latin1_lower_char_def
      OBJECT_PROTOTYPE_NAMES_def ustr_def)

text \<open>
  Claim C9 at the inputs where the code leaves it. The semantic key \<open>constructor\<close> is
  no key of the alias table, yet \<open>aliases[aliasKey]\<close> finds the function of that name on
  \<open>Object.prototype\<close>, which the loop of \<open>findRow\<close> cannot iterate: \<open>valueAt\<close> throws a
  TypeError instead of returning 0. And for a row that is found, the month
  \<open>constructor\<close>, of which the values hold no entry, gives NaN instead of 0.
\<close>

theorem valueAt_inherited_name:
  "valueAt P rs (ustr ''constructor'') month = Inl TypeError
   \<and> map_of aliases (ustr ''constructor'') = None
   \<and> valueAt latin1_platform sample_rows (ustr ''ebitda'') (Some (ustr ''constructor'')) = Inr NaN
   \<and> map_of (values (sample_rows ! 1)) (ustr ''constructor'') = None"
proof (intro conjI)
  show "valueAt P rs (ustr ''constructor'') month = Inl TypeError"
    by (simp add: valueAt_def findRow_def constructor_inherited)
  show "map_of aliases (ustr ''constructor'') = None"
    by (simp add: aliases_def ustr_def)
  show "valueAt latin1_platform sample_rows (ustr ''ebitda'') (Some (ustr ''constructor'')) = Inr NaN"
    by (rule valueAt_ebitda)
  show "map_of (values (sample_rows ! 1)) (ustr ''constructor'') = None"
    unfolding ebitda_values by (simp add: ustr_def)
qed

lemma latin1_lower_idem:
  "toLowerCase latin1_platform (toLowerCase latin1_platform m) = toLowerCase latin1_platform m"
  by (induction m) (auto simp add: latin1_platform_def latin1_lower_char_def)

text \<open>
  Claim C10. \<open>valueAt\<close> looks the month up in its lower-case form: a month and its
  lower-case form give the same result, a result being a Number or the exception, for
  every month whose lower-case form is lower-case already (every string is, for the
  tables of Unicode; for the Latin-1 tables it is proved); an absent month is looked up
  as the empty string. Nothing else is done to the month: on the sample rows \<open>MAR\<close> and
  \<open>mar\<close> give the value 30 of EBITDA, while \<open>mar\<close> behind a space and \<open>m\<close>\<open>U+00E1\<close>\<open>r\<close> give
  0, the value of a month without entry.
\<close>

theorem valueAt_lowercase_spec:
  "(toLowerCase P (toLowerCase P m) = toLowerCase P m
      \<longrightarrow> valueAt P rs k (Some m) = valueAt P rs k (Some (toLowerCase P m)))
   \<and> valueAt latin1_platform rs k (Some m)
       = valueAt latin1_platform rs k (Some (toLowerCase latin1_platform m))
   \<and> valueAt P rs k None = valueAt P rs k (Some [])
   \<and> valueAt latin1_platform sample_rows (ustr ''ebitda'') (Some (ustr ''MAR'')) = Inr (Num 30)
   \<and> valueAt latin1_platform sample_rows (ustr ''ebitda'') (Some (ustr ''mar'')) = Inr (Num 30)
   \<and> valueAt latin1_platform sample_rows (ustr ''ebitda'') (Some (ustr '' mar'')) = Inr (Num 0)
   \<and> valueAt latin1_platform sample_rows (ustr ''ebitda'')
        (Some (ustr ''m'' @ [0xE1] @ ustr ''r'')) = Inr (Num 0)"
proof (intro conjI impI)
  assume "toLowerCase P (toLowerCase P m) = toLowerCase P m"
  then show "valueAt P rs k (Some m) = valueAt P rs k (Some (toLowerCase P m))"
    by (simp add: valueAt_def text_of_def split: sum.split option.split)
next
  show "valueAt latin1_platform rs k (Some m)
       = valueAt latin1_platform rs k (Some (toLowerCase latin1_platform m))"
    by (simp add: valueAt_def text_of_def latin1_lower_idem split: sum.split option.split)
  show "valueAt P rs k None = valueAt P rs k (Some [])"
    by (simp add: valueAt_def text_of_def split: sum.split option.split)
qed (rule valueAt_ebitda)+

theorem valueAt_lowercase_spec_witness:
  "toLowerCase latin1_platform (toLowerCase latin1_platform (ustr ''MAR''))
     = toLowerCase latin1_platform (ustr ''MAR'')
   \<and> valueAt latin1_platform sample_rows (ustr ''ebitda'') (Some (ustr ''MAR''))
       = valueAt latin1_platform sample_rows (ustr ''ebitda'')
           (Some (toLowerCase latin1_platform (ustr ''MAR'')))"
proof -
  have idem: "toLowerCase latin1_platform (toLowerCase latin1_platform (ustr ''MAR''))
     = toLowerCase latin1_platform (ustr ''MAR'')"
    by (simp add: latin1_platform_def latin1_lower_char_def ustr_def)
  with valueAt_lowercase_spec [of latin1_platform "ustr ''MAR''" sample_rows "ustr ''ebitda''"]
  show ?thesis
    by blast
qed

end
